theory Spec2Isabelle
  imports Complex_Main
begin

section \<open>Values, errors and arrays\<close>

text \<open>
  The exceptions of \<^verbatim>\<open>mdp.py\<close>: a failed \<^verbatim>\<open>assert\<close>, an index that numpy
  rejects, the integer division by zero of \<^verbatim>\<open>s // self.cols\<close>, and the
  \<^verbatim>\<open>BaseException("undefined action ...")\<close> of \<^verbatim>\<open>_transition\<close>.
\<close>

datatype error = AssertionError | IndexError | ZeroDivisionError | UndefinedAction

text \<open>
  An entry of a reward array: \<^verbatim>\<open>float('-inf')\<close> or a finite number. Finite floats
  are idealised as reals; rounding, NaN and the dtype of an array are not modelled.
\<close>

datatype reward = NegInf | Fin real

text \<open>
  The arguments of \<^verbatim>\<open>MDP.__init__\<close> are untyped in the source, and the constructor
  inspects their type, so they are values of a small universe of Python objects.
  \<^verbatim>\<open>bool\<close> is a subclass of \<^verbatim>\<open>int\<close> in Python.
\<close>

datatype pyval = PyInt int | PyBool bool | PyFloat real | PyNone
  | PyFun "int \<Rightarrow> int \<Rightarrow> error + int"

text \<open>A two-dimensional \<^verbatim>\<open>np.ndarray\<close>: its shape and its rows.\<close>

record ndarray =
  shape0 :: nat
  shape1 :: nat
  cells :: "reward list list"

definition np_zeros :: "nat \<Rightarrow> nat \<Rightarrow> ndarray" where
  "np_zeros n k = \<lparr>shape0 = n, shape1 = k, cells = replicate n (replicate k (Fin 0))\<rparr>"

definition nd_fill :: "ndarray \<Rightarrow> reward \<Rightarrow> ndarray" where
  "nd_fill t v = t\<lparr>cells := map (map (\<lambda>_. v)) (cells t)\<rparr>"

text \<open>
  numpy resolves an integer index \<open>i\<close> on an axis of length \<open>n\<close>: \<open>0 \<le> i < n\<close> is
  itself, \<open>-n \<le> i < 0\<close> counts from the end, anything else raises IndexError.
\<close>

definition norm_index :: "nat \<Rightarrow> int \<Rightarrow> error + nat" where
  "norm_index n i =
     (if 0 \<le> i \<and> i < int n then Inr (nat i)
      else if - int n \<le> i \<and> i < 0 then Inr (nat (int n + i))
      else Inl IndexError)"

definition nd_getitem :: "ndarray \<Rightarrow> int \<Rightarrow> int \<Rightarrow> error + reward" where
  "nd_getitem t i j =
     (case norm_index (shape0 t) i of
        Inl e \<Rightarrow> Inl e
      | Inr i' \<Rightarrow>
          (case norm_index (shape1 t) j of
             Inl e \<Rightarrow> Inl e
           | Inr j' \<Rightarrow> Inr (cells t ! i' ! j')))"

definition nd_setitem :: "ndarray \<Rightarrow> int \<Rightarrow> int \<Rightarrow> reward \<Rightarrow> error + ndarray" where
  "nd_setitem t i j v =
     (case norm_index (shape0 t) i of
        Inl e \<Rightarrow> Inl e
      | Inr i' \<Rightarrow>
          (case norm_index (shape1 t) j of
             Inl e \<Rightarrow> Inl e
           | Inr j' \<Rightarrow> Inr (t\<lparr>cells := (cells t)[i' := (cells t ! i')[j' := v]]\<rparr>)))"

text \<open>\<^verbatim>\<open>t[:, j].fill(v)\<close>: the column view is written through to the array.\<close>

definition nd_fill_column :: "ndarray \<Rightarrow> int \<Rightarrow> reward \<Rightarrow> error + ndarray" where
  "nd_fill_column t j v =
     (case norm_index (shape1 t) j of
        Inl e \<Rightarrow> Inl e
      | Inr j' \<Rightarrow> Inr (t\<lparr>cells := map (\<lambda>row. row[j' := v]) (cells t)\<rparr>))"

text \<open>The one-dimensional \<^verbatim>\<open>state_rewards\<close> array, written by index.\<close>

definition vec_setitem :: "reward list \<Rightarrow> int \<Rightarrow> reward \<Rightarrow> error + reward list" where
  "vec_setitem xs i v =
     (case norm_index (length xs) i of
        Inl e \<Rightarrow> Inl e
      | Inr i' \<Rightarrow> Inr (xs[i' := v]))"

text \<open>
  Reward tables are mutable arrays that objects hold by reference. The store is the list
  of all arrays allocated so far; a reference is a position in it, and allocation appends.
\<close>

type_synonym ref = nat
type_synonym heap = "ndarray list"

definition alloc :: "heap \<Rightarrow> ndarray \<Rightarrow> ref \<times> heap" where
  "alloc h t = (length h, h @ [t])"

text \<open>A \<^verbatim>\<open>for\<close> loop whose body may raise: the first error ends the loop.\<close>

fun for_each :: "('a \<Rightarrow> 's \<Rightarrow> error + 's) \<Rightarrow> 'a list \<Rightarrow> 's \<Rightarrow> error + 's" where
  "for_each body [] st = Inr st"
| "for_each body (x # xs) st =
     (case body x st of Inl e \<Rightarrow> Inl e | Inr st' \<Rightarrow> for_each body xs st')"

definition py_range :: "int \<Rightarrow> int list" where
  "py_range n = map int [0..<nat n]"

section \<open>The class MDP\<close>

record mdp =
  S :: pyval
  A :: pyval
  rewards :: ref
  transition :: pyval

definition isinstance_int :: "pyval \<Rightarrow> bool" where
  "isinstance_int v = (case v of PyInt _ \<Rightarrow> True | PyBool _ \<Rightarrow> True | _ \<Rightarrow> False)"

definition callable :: "pyval \<Rightarrow> bool" where
  "callable v = (case v of PyFun _ \<Rightarrow> True | _ \<Rightarrow> False)"

text \<open>Python's \<^verbatim>\<open>==\<close> between a dimension of a shape and an object.\<close>

definition py_eq :: "nat \<Rightarrow> pyval \<Rightarrow> bool" where
  "py_eq n v =
     (case v of
        PyInt i \<Rightarrow> int n = i
      | PyBool b \<Rightarrow> n = (if b then 1 else 0)
      | PyFloat x \<Rightarrow> real n = x
      | _ \<Rightarrow> False)"

text \<open>\<^verbatim>\<open>MDP.__init__\<close>: four assertions, then the four fields are stored.\<close>

definition MDP_init :: "heap \<Rightarrow> pyval \<Rightarrow> pyval \<Rightarrow> ref \<Rightarrow> pyval \<Rightarrow> error + mdp" where
  "MDP_init h n k rew tr =
     (if \<not> isinstance_int n then Inl AssertionError
      else if \<not> isinstance_int k then Inl AssertionError
      else if \<not> (py_eq (shape0 (h ! rew)) n \<and> py_eq (shape1 (h ! rew)) k)
        then Inl AssertionError
      else if \<not> callable tr then Inl AssertionError
      else Inr \<lparr>S = n, A = k, rewards = rew, transition = tr\<rparr>)"

section \<open>The class GridWorldMDP\<close>

definition UP :: int where "UP = 0"
definition DOWN :: int where "DOWN = 1"
definition LEFT :: int where "LEFT = 2"
definition RIGHT :: int where "RIGHT = 3"
definition UP_LEFT :: int where "UP_LEFT = 4"
definition UP_RIGHT :: int where "UP_RIGHT = 5"
definition DOWN_LEFT :: int where "DOWN_LEFT = 6"
definition DOWN_RIGHT :: int where "DOWN_RIGHT = 7"
definition ABSORB :: int where "ABSORB = 8"

text \<open>\<^verbatim>\<open>len(self.Actions)\<close>\<close>

definition len_Actions :: int where "len_Actions = 9"

lemmas Actions_defs =
  UP_def DOWN_def LEFT_def RIGHT_def UP_LEFT_def UP_RIGHT_def DOWN_LEFT_def
  DOWN_RIGHT_def ABSORB_def len_Actions_def

record gridworld = mdp +
  rows :: int
  cols :: int
  state_rewards :: "reward list"

text \<open>
  The methods below read only \<^verbatim>\<open>self.rows\<close> and \<^verbatim>\<open>self.cols\<close>, and the constructor
  calls them before the other fields exist, so they take the two dimensions \<open>nr\<close>
  and \<open>nc\<close>.
\<close>

definition coor_to_state :: "int \<Rightarrow> int \<Rightarrow> int \<Rightarrow> int \<Rightarrow> error + int" where
  "coor_to_state nr nc r c =
     (if \<not> (0 \<le> r \<and> r < nr) then Inl AssertionError
      else if \<not> (0 \<le> c \<and> c < nc) then Inl AssertionError
      else Inr (r * nc + c))"

text \<open>Python's \<^verbatim>\<open>//\<close> and \<^verbatim>\<open>%\<close> on integers round to the floor, as \<open>div\<close> and \<open>mod\<close> do.\<close>

definition state_to_coor :: "int \<Rightarrow> int \<Rightarrow> int \<Rightarrow> error + (int \<times> int)" where
  "state_to_coor nr nc s =
     (if \<not> s < nr * nc then Inl AssertionError
      else if nc = 0 then Inl ZeroDivisionError
      else Inr (s div nc, s mod nc))"

text \<open>\<^verbatim>\<open>_transition(s, a, alert_illegal=True)\<close>\<close>

definition GridWorldMDP_transition ::
    "int \<Rightarrow> int \<Rightarrow> int \<Rightarrow> int \<Rightarrow> error + (int \<times> bool)" where
  "GridWorldMDP_transition nr nc s a =
     (case state_to_coor nr nc s of
        Inl e \<Rightarrow> Inl e
      | Inr (r, c) \<Rightarrow>
          if \<not> (a \<ge> 0 \<and> a < len_Actions) then Inl AssertionError
          else
            (case (if a = UP then Inr (r - 1, c)
                   else if a = DOWN then Inr (r + 1, c)
                   else if a = LEFT then Inr (r, c - 1)
                   else if a = RIGHT then Inr (r, c + 1)
                   else if a = UP_LEFT then Inr (r - 1, c - 1)
                   else if a = UP_RIGHT then Inr (r - 1, c + 1)
                   else if a = DOWN_LEFT then Inr (r + 1, c - 1)
                   else if a = DOWN_RIGHT then Inr (r + 1, c + 1)
                   else if a = ABSORB then Inr (r, c)
                   else Inl UndefinedAction) of
               Inl e \<Rightarrow> Inl e
             | Inr (r_prime, c_prime) \<Rightarrow>
                 (let illegal = (r_prime < 0 \<or> r_prime \<ge> nr \<or> c_prime < 0 \<or> c_prime \<ge> nc);
                      dest = (if illegal then (r, c) else (r_prime, c_prime))
                  in case coor_to_state nr nc (fst dest) (snd dest) of
                       Inl e \<Rightarrow> Inl e
                     | Inr s_prime \<Rightarrow> Inr (s_prime, illegal))))"

text \<open>\<^verbatim>\<open>_transition(s, a)\<close> with \<^verbatim>\<open>alert_illegal=False\<close>: only the state is returned.\<close>

definition GridWorldMDP_transition_fn :: "int \<Rightarrow> int \<Rightarrow> int \<Rightarrow> int \<Rightarrow> error + int" where
  "GridWorldMDP_transition_fn nr nc s a =
     (case GridWorldMDP_transition nr nc s a of
        Inl e \<Rightarrow> Inl e
      | Inr (s_prime, illegal) \<Rightarrow> Inr s_prime)"

text \<open>
  \<^verbatim>\<open>reward_dict\<close> is the list of the items of the dict, in iteration order; the keys of a
  dict are distinct. \<^verbatim>\<open>coor in reward_dict\<close> and \<^verbatim>\<open>reward_dict[coor]\<close> are \<open>map_of\<close>.
\<close>

type_synonym dict = "((int \<times> int) \<times> reward) list"

text \<open>The body of the nested loop of \<^verbatim>\<open>GridWorldMDP.__init__\<close>.\<close>

definition fill_entry ::
    "int \<Rightarrow> int \<Rightarrow> dict \<Rightarrow> int \<Rightarrow> int \<Rightarrow> ndarray \<Rightarrow> error + ndarray" where
  "fill_entry nr nc reward_dict s a t =
     (case GridWorldMDP_transition nr nc s a of
        Inl e \<Rightarrow> Inl e
      | Inr (s_prime, illegal) \<Rightarrow>
          (case state_to_coor nr nc s_prime of
             Inl e \<Rightarrow> Inl e
           | Inr coor \<Rightarrow>
               if \<not> illegal then
                 (case map_of reward_dict coor of
                    Some v \<Rightarrow> nd_setitem t s a v
                  | None \<Rightarrow> Inr t)
               else nd_setitem t s a NegInf))"

definition fill_rewards ::
    "int \<Rightarrow> int \<Rightarrow> dict \<Rightarrow> int \<Rightarrow> int \<Rightarrow> ndarray \<Rightarrow> error + ndarray" where
  "fill_rewards nr nc reward_dict n k t =
     for_each (\<lambda>s. for_each (\<lambda>a. fill_entry nr nc reward_dict s a) (py_range k))
       (py_range n) t"

text \<open>The loop that fills \<^verbatim>\<open>state_rewards\<close> from the items of \<^verbatim>\<open>reward_dict\<close>.\<close>

definition fill_state_rewards ::
    "int \<Rightarrow> int \<Rightarrow> dict \<Rightarrow> reward list \<Rightarrow> error + reward list" where
  "fill_state_rewards nr nc reward_dict xs =
     for_each (\<lambda>((r, c), v) ys.
         case coor_to_state nr nc r c of
           Inl e \<Rightarrow> Inl e
         | Inr i \<Rightarrow> vec_setitem ys i v)
       reward_dict xs"

text \<open>
  \<^verbatim>\<open>set_goal\<close> and \<^verbatim>\<open>set_all_goals\<close> write to the array that \<^verbatim>\<open>self.rewards\<close> refers to.
  An exception leaves the writes made before it in the store, so the store is returned
  in every case.
\<close>

definition set_goal :: "heap \<Rightarrow> gridworld \<Rightarrow> int option \<Rightarrow> (error + unit) \<times> heap" where
  "set_goal h self goal_state =
     (case nd_fill_column (h ! rewards self) ABSORB NegInf of
        Inl e \<Rightarrow> (Inl e, h)
      | Inr t1 \<Rightarrow>
          (let h1 = h[rewards self := t1] in
           case goal_state of
             None \<Rightarrow> (Inr (), h1)
           | Some g \<Rightarrow>
               (case nd_setitem t1 g ABSORB (Fin 0) of
                  Inl e \<Rightarrow> (Inl e, h1)
                | Inr t2 \<Rightarrow> (Inr (), h1[rewards self := t2]))))"

definition set_all_goals :: "heap \<Rightarrow> gridworld \<Rightarrow> (error + unit) \<times> heap" where
  "set_all_goals h self =
     (case nd_fill_column (h ! rewards self) ABSORB (Fin 0) of
        Inl e \<Rightarrow> (Inl e, h)
      | Inr t1 \<Rightarrow> (Inr (), h[rewards self := t1]))"

text \<open>
  \<^verbatim>\<open>GridWorldMDP.__init__\<close>. \<^verbatim>\<open>rows\<close> and \<^verbatim>\<open>cols\<close> are integers here, so the two
  \<^verbatim>\<open>isinstance\<close> assertions hold. The table is filled while it is still local to the
  constructor and enters the store when it is complete.
\<close>

definition GridWorldMDP_init ::
    "heap \<Rightarrow> int \<Rightarrow> int \<Rightarrow> dict \<Rightarrow> int option \<Rightarrow> reward \<Rightarrow> (error + gridworld) \<times> heap" where
  "GridWorldMDP_init h nr nc reward_dict goal_state default_reward =
     (if \<not> nr > 0 then (Inl AssertionError, h)
      else if \<not> nc > 0 then (Inl AssertionError, h)
      else
        (let n = nr * nc;
             k = len_Actions;
             t0 = nd_fill (np_zeros (nat n) (nat k)) default_reward
         in case fill_rewards nr nc reward_dict n k t0 of
              Inl e \<Rightarrow> (Inl e, h)
            | Inr t \<Rightarrow>
                (let (p, h1) = alloc h t in
                 case MDP_init h1 (PyInt n) (PyInt k) p
                        (PyFun (GridWorldMDP_transition_fn nr nc)) of
                   Inl e \<Rightarrow> (Inl e, h1)
                 | Inr base \<Rightarrow>
                     (case fill_state_rewards nr nc reward_dict
                             (replicate (nat n) default_reward) of
                        Inl e \<Rightarrow> (Inl e, h1)
                      | Inr sr \<Rightarrow>
                          (let self = \<lparr>S = S base, A = A base, rewards = rewards base,
                                       transition = transition base,
                                       rows = nr, cols = nc, state_rewards = sr\<rparr>
                           in case set_goal h1 self goal_state of
                                (Inl e, h2) \<Rightarrow> (Inl e, h2)
                              | (Inr u, h2) \<Rightarrow> (Inr self, h2))))))"

text \<open>
  \<^verbatim>\<open>copy\<close>: a fresh instance with an empty dict and the default arguments, whose
  \<^verbatim>\<open>rewards\<close> field is then pointed at a new array, \<^verbatim>\<open>np.copy(self.rewards)\<close>.
\<close>

definition copy :: "heap \<Rightarrow> gridworld \<Rightarrow> (error + gridworld) \<times> heap" where
  "copy h self =
     (case GridWorldMDP_init h (rows self) (cols self) [] None (Fin 0) of
        (Inl e, h1) \<Rightarrow> (Inl e, h1)
      | (Inr cp, h1) \<Rightarrow>
          (let (p, h2) = alloc h1 (h1 ! rewards self)
           in (Inr (cp\<lparr>rewards := p\<rparr>), h2)))"

section \<open>The specification's vocabulary\<close>

text \<open>
  Second definitions, written from the words of the specification and compared with the
  code by the theorems below: the fixed row and column delta of an action, membership of
  a coordinate in the grid, and the coordinate of a state shifted by the delta of an
  action.
\<close>

definition spec_delta :: "int \<Rightarrow> int \<times> int" where
  "spec_delta a =
     (if a = UP then (- 1, 0)
      else if a = DOWN then (1, 0)
      else if a = LEFT then (0, - 1)
      else if a = RIGHT then (0, 1)
      else if a = UP_LEFT then (- 1, - 1)
      else if a = UP_RIGHT then (- 1, 1)
      else if a = DOWN_LEFT then (1, - 1)
      else if a = DOWN_RIGHT then (1, 1)
      else (0, 0))"

definition in_grid :: "int \<Rightarrow> int \<Rightarrow> int \<times> int \<Rightarrow> bool" where
  "in_grid nr nc rc = (0 \<le> fst rc \<and> fst rc < nr \<and> 0 \<le> snd rc \<and> snd rc < nc)"

definition spec_dest :: "int \<Rightarrow> int \<Rightarrow> int \<Rightarrow> int \<times> int" where
  "spec_dest nc s a = (s div nc + fst (spec_delta a), s mod nc + snd (spec_delta a))"

section \<open>Invariants, the table of the specification and an example\<close>

text \<open>
  The shape invariant of a reward table; the entry that the specification gives at
  \<open>(s, a)\<close> before the ABSORB rule applies (negative infinity for an illegal move,
  else the override of the destination coordinate, else the default reward); and the
  invariant of the nested loop of the constructor: the entries in \<open>D\<close> have been
  visited, all others still hold the default reward.
\<close>

definition table_ok :: "nat \<Rightarrow> nat \<Rightarrow> ndarray \<Rightarrow> bool" where
  "table_ok n k t =
     (shape0 t = n \<and> shape1 t = k \<and> length (cells t) = n
      \<and> (\<forall>row \<in> set (cells t). length row = k))"

definition spec_entry :: "int \<Rightarrow> int \<Rightarrow> dict \<Rightarrow> reward \<Rightarrow> int \<Rightarrow> int \<Rightarrow> reward" where
  "spec_entry nr nc reward_dict default_reward s a =
     (if \<not> in_grid nr nc (spec_dest nc s a) then NegInf
      else case map_of reward_dict (spec_dest nc s a) of
             Some v \<Rightarrow> v
           | None \<Rightarrow> default_reward)"

definition filled ::
    "int \<Rightarrow> int \<Rightarrow> dict \<Rightarrow> reward \<Rightarrow> (nat \<times> nat) set \<Rightarrow> ndarray \<Rightarrow> bool" where
  "filled nr nc reward_dict default_reward D t =
     (table_ok (nat (nr * nc)) 9 t
      \<and> (\<forall>i < nat (nr * nc). \<forall>j < 9.
            cells t ! i ! j =
              (if (i, j) \<in> D then spec_entry nr nc reward_dict default_reward (int i) (int j)
               else default_reward)))"

text \<open>
  A grid world whose reward table is in the store with the shape the constructor gave
  it.
\<close>

definition gridworld_ok :: "heap \<Rightarrow> gridworld \<Rightarrow> bool" where
  "gridworld_ok h m =
     (0 < rows m \<and> 0 < cols m \<and> rewards m < length h
      \<and> table_ok (nat (rows m * cols m)) 9 (h ! rewards m))"

text \<open>
  The concrete scenario of the specification: the 2 x 2 grid with the override
  \<open>(1, 1) \<mapsto> 10\<close>, goal state 3 and default reward 0, built in the empty store.
\<close>

definition scenario_2x2 :: "(error + gridworld) \<times> heap" where
  "scenario_2x2 = GridWorldMDP_init [] 2 2 [((1, 1), Fin 10)] (Some 3) (Fin 0)"

definition scenario_grid :: gridworld where
  "scenario_grid = projr (fst scenario_2x2)"

definition scenario_heap :: heap where
  "scenario_heap = snd scenario_2x2"

text \<open>
  The reward table as the specification states it (claim C1): the ABSORB entry is 0 where
  \<open>s\<close> equals the constructor's goal state.
\<close>

definition spec_reward ::
    "int \<Rightarrow> int \<Rightarrow> dict \<Rightarrow> int option \<Rightarrow> reward \<Rightarrow> int \<Rightarrow> int \<Rightarrow> reward" where
  "spec_reward nr nc reward_dict goal_state default_reward s a =
     (if a = ABSORB then (if goal_state = Some s then Fin 0 else NegInf)
      else spec_entry nr nc reward_dict default_reward s a)"

text \<open>
  The state that a goal index denotes once numpy has resolved it on a table of \<open>n\<close>
  rows, and the reward table with the ABSORB entry 0 at that state.
\<close>

definition resolved_goal :: "int \<Rightarrow> int option \<Rightarrow> int option" where
  "resolved_goal n goal_state =
     (case goal_state of None \<Rightarrow> None | Some g \<Rightarrow> Some (if g < 0 then n + g else g))"

definition resolved_reward ::
    "int \<Rightarrow> int \<Rightarrow> dict \<Rightarrow> int option \<Rightarrow> reward \<Rightarrow> int \<Rightarrow> int \<Rightarrow> reward" where
  "resolved_reward nr nc reward_dict goal_state default_reward s a =
     (if a = ABSORB
      then (if resolved_goal (nr * nc) goal_state = Some s then Fin 0 else NegInf)
      else spec_entry nr nc reward_dict default_reward s a)"

section \<open>Coordinates and states\<close>

lemma div_lt_rows:
  fixes s nr nc :: int
  assumes "0 \<le> s" "s < nr * nc" "0 < nc"
  shows "0 \<le> s div nc \<and> s div nc < nr \<and> 0 \<le> s mod nc \<and> s mod nc < nc"
proof -
  have a: "0 \<le> s div nc" using assms by (simp add: pos_imp_zdiv_nonneg_iff)
  have b: "s div nc < nr"
  proof (rule ccontr)
    assume "\<not> s div nc < nr"
    then have "nr \<le> s div nc" by simp
    then have "nr * nc \<le> (s div nc) * nc" using assms by (intro mult_right_mono) auto
    also have "\<dots> \<le> s"
    proof -
      have "s = (s div nc) * nc + s mod nc" by simp
      moreover have "0 \<le> s mod nc" using assms by simp
      ultimately show ?thesis by linarith
    qed
    finally show False using assms by simp
  qed
  show ?thesis using a b assms by simp
qed

lemma encode_bounds:
  fixes r c nr nc :: int
  assumes "0 \<le> r" "r < nr" "0 \<le> c" "c < nc"
  shows "0 \<le> r * nc + c \<and> r * nc + c < nr * nc
         \<and> (r * nc + c) div nc = r \<and> (r * nc + c) mod nc = c"
proof -
  have "r + 1 \<le> nr" using assms by simp
  then have "(r + 1) * nc \<le> nr * nc" using assms by (intro mult_right_mono) auto
  then have "r * nc + c < nr * nc" using assms by (simp add: algebra_simps)
  moreover have "0 \<le> r * nc" using assms by simp
  ultimately show ?thesis using assms by simp
qed

text \<open>
  C4. On a grid with \<open>rows > 0\<close> and \<open>cols > 0\<close>: for every state \<open>s\<close> in
  \<open>[0, rows*cols)\<close>, \<open>state_to_coor\<close> returns a coordinate that \<open>coor_to_state\<close> maps
  back to \<open>s\<close>; and for every coordinate \<open>(r, c)\<close> inside the grid, \<open>coor_to_state\<close>
  returns \<open>r * cols + c\<close>, which \<open>state_to_coor\<close> maps back to \<open>(r, c)\<close>.
\<close>

theorem coor_state_roundtrip:
  assumes "0 < nr" and "0 < nc"
  shows "(0 \<le> s \<and> s < nr * nc \<longrightarrow>
           (\<exists>r c. state_to_coor nr nc s = Inr (r, c) \<and> coor_to_state nr nc r c = Inr s))
       \<and> (0 \<le> r \<and> r < nr \<and> 0 \<le> c \<and> c < nc \<longrightarrow>
           coor_to_state nr nc r c = Inr (r * nc + c)
           \<and> state_to_coor nr nc (r * nc + c) = Inr (r, c))"
proof (intro conjI impI)
  assume s: "0 \<le> s \<and> s < nr * nc"
  with assms have "0 \<le> s div nc \<and> s div nc < nr \<and> 0 \<le> s mod nc \<and> s mod nc < nc"
    by (intro div_lt_rows) auto
  with s assms
  show "\<exists>r c. state_to_coor nr nc s = Inr (r, c) \<and> coor_to_state nr nc r c = Inr s"
    by (simp add: state_to_coor_def coor_to_state_def)
next
  assume rc: "0 \<le> r \<and> r < nr \<and> 0 \<le> c \<and> c < nc"
  then show "coor_to_state nr nc r c = Inr (r * nc + c)"
    by (simp add: coor_to_state_def)
next
  assume rc: "0 \<le> r \<and> r < nr \<and> 0 \<le> c \<and> c < nc"
  then have "0 \<le> r * nc + c \<and> r * nc + c < nr * nc
             \<and> (r * nc + c) div nc = r \<and> (r * nc + c) mod nc = c"
    by (intro encode_bounds) auto
  with assms show "state_to_coor nr nc (r * nc + c) = Inr (r, c)"
    by (simp add: state_to_coor_def)
qed

theorem coor_state_roundtrip_witness:
  "state_to_coor 2 3 4 = Inr (1, 1) \<and> coor_to_state 2 3 1 1 = Inr 4
   \<and> coor_to_state 2 3 1 2 = Inr 5 \<and> state_to_coor 2 3 5 = Inr (1, 2)"
  using coor_state_roundtrip [of 2 3 4 1 2]
  by (simp add: state_to_coor_def coor_to_state_def)

section \<open>The transition\<close>

lemma action_cases:
  fixes a :: int
  assumes "0 \<le> a" "a < 9"
  shows "a = UP \<or> a = DOWN \<or> a = LEFT \<or> a = RIGHT \<or> a = UP_LEFT \<or> a = UP_RIGHT
         \<or> a = DOWN_LEFT \<or> a = DOWN_RIGHT \<or> a = ABSORB"
  using assms unfolding Actions_defs by arith

lemma state_to_coor_valid:
  assumes "0 < nc" "s < nr * nc"
  shows "state_to_coor nr nc s = Inr (s div nc, s mod nc)"
  using assms by (simp add: state_to_coor_def)

lemma coor_to_state_valid:
  assumes "in_grid nr nc (r, c)"
  shows "coor_to_state nr nc r c = Inr (r * nc + c)"
  using assms by (simp add: coor_to_state_def in_grid_def)

lemma transition_eq:
  assumes "0 < nr" "0 < nc" "0 \<le> s" "s < nr * nc" "0 \<le> a" "a < 9"
  shows "GridWorldMDP_transition nr nc s a =
           (if in_grid nr nc (spec_dest nc s a)
            then Inr (fst (spec_dest nc s a) * nc + snd (spec_dest nc s a), False)
            else Inr (s, True))"
proof -
  have b: "0 \<le> s div nc \<and> s div nc < nr \<and> 0 \<le> s mod nc \<and> s mod nc < nc"
    using assms by (intro div_lt_rows) auto
  have enc: "coor_to_state nr nc (s div nc) (s mod nc) = Inr s"
    using b by (simp add: coor_to_state_def)
  have st: "state_to_coor nr nc s = Inr (s div nc, s mod nc)"
    using assms by (simp add: state_to_coor_valid)
  from action_cases [OF assms(5,6)] show ?thesis
  proof (elim disjE)
    assume "a = UP" then show ?thesis using b enc st
      by (auto simp: GridWorldMDP_transition_def spec_dest_def spec_delta_def in_grid_def
          Actions_defs coor_to_state_def Let_def)
  next
    assume "a = DOWN" then show ?thesis using b enc st
      by (auto simp: GridWorldMDP_transition_def spec_dest_def spec_delta_def in_grid_def
          Actions_defs coor_to_state_def Let_def)
  next
    assume "a = LEFT" then show ?thesis using b enc st
      by (auto simp: GridWorldMDP_transition_def spec_dest_def spec_delta_def in_grid_def
          Actions_defs coor_to_state_def Let_def)
  next
    assume "a = RIGHT" then show ?thesis using b enc st
      by (auto simp: GridWorldMDP_transition_def spec_dest_def spec_delta_def in_grid_def
          Actions_defs coor_to_state_def Let_def)
  next
    assume "a = UP_LEFT" then show ?thesis using b enc st
      by (auto simp: GridWorldMDP_transition_def spec_dest_def spec_delta_def in_grid_def
          Actions_defs coor_to_state_def Let_def)
  next
    assume "a = UP_RIGHT" then show ?thesis using b enc st
      by (auto simp: GridWorldMDP_transition_def spec_dest_def spec_delta_def in_grid_def
          Actions_defs coor_to_state_def Let_def)
  next
    assume "a = DOWN_LEFT" then show ?thesis using b enc st
      by (auto simp: GridWorldMDP_transition_def spec_dest_def spec_delta_def in_grid_def
          Actions_defs coor_to_state_def Let_def)
  next
    assume "a = DOWN_RIGHT" then show ?thesis using b enc st
      by (auto simp: GridWorldMDP_transition_def spec_dest_def spec_delta_def in_grid_def
          Actions_defs coor_to_state_def Let_def)
  next
    assume "a = ABSORB" then show ?thesis using b enc st
      by (auto simp: GridWorldMDP_transition_def spec_dest_def spec_delta_def in_grid_def
          Actions_defs coor_to_state_def Let_def)
  qed
qed

text \<open>
  C2. For every state \<open>s\<close> in \<open>[0, rows*cols)\<close> and every action \<open>a\<close> in \<open>[0, 9)\<close>
  other than ABSORB: if the coordinate of \<open>s\<close> shifted by the fixed delta of \<open>a\<close> lies
  inside the grid, the transition returns the state that encodes the shifted coordinate,
  with the illegality flag false; otherwise it returns \<open>s\<close> with the flag true. For
  ABSORB, whose delta is \<open>(0, 0)\<close>, it returns \<open>s\<close> with the flag false.
\<close>

theorem transition_moves:
  assumes "0 < nr" "0 < nc" "0 \<le> s" "s < nr * nc" "0 \<le> a" "a < 9"
  shows "\<exists>r c. state_to_coor nr nc s = Inr (r, c) \<and>
     (a \<noteq> ABSORB \<longrightarrow>
        (if in_grid nr nc (r + fst (spec_delta a), c + snd (spec_delta a))
         then \<exists>s'. coor_to_state nr nc (r + fst (spec_delta a)) (c + snd (spec_delta a)) = Inr s'
                  \<and> GridWorldMDP_transition nr nc s a = Inr (s', False)
         else GridWorldMDP_transition nr nc s a = Inr (s, True)))
     \<and> (a = ABSORB \<longrightarrow>
          spec_delta a = (0, 0) \<and> GridWorldMDP_transition nr nc s a = Inr (s, False))"
proof -
  have st: "state_to_coor nr nc s = Inr (s div nc, s mod nc)"
    using assms by (simp add: state_to_coor_valid)
  have eq: "GridWorldMDP_transition nr nc s a =
           (if in_grid nr nc (spec_dest nc s a)
            then Inr (fst (spec_dest nc s a) * nc + snd (spec_dest nc s a), False)
            else Inr (s, True))"
    using assms by (rule transition_eq)
  have mv: "a \<noteq> ABSORB \<longrightarrow>
        (if in_grid nr nc (s div nc + fst (spec_delta a), s mod nc + snd (spec_delta a))
         then \<exists>s'. coor_to_state nr nc (s div nc + fst (spec_delta a))
                      (s mod nc + snd (spec_delta a)) = Inr s'
                  \<and> GridWorldMDP_transition nr nc s a = Inr (s', False)
         else GridWorldMDP_transition nr nc s a = Inr (s, True))"
    using eq by (simp add: spec_dest_def coor_to_state_valid)
  have ab: "a = ABSORB \<longrightarrow>
          spec_delta a = (0, 0) \<and> GridWorldMDP_transition nr nc s a = Inr (s, False)"
  proof
    assume a: "a = ABSORB"
    have d: "spec_delta a = (0, 0)" using a by (simp add: spec_delta_def Actions_defs)
    have "in_grid nr nc (s div nc, s mod nc)"
      using div_lt_rows [OF assms(3,4,2)] by (simp add: in_grid_def)
    then show "spec_delta a = (0, 0) \<and> GridWorldMDP_transition nr nc s a = Inr (s, False)"
      using eq d by (simp add: spec_dest_def)
  qed
  show ?thesis using st mv ab by blast
qed

theorem transition_moves_witness:
  "GridWorldMDP_transition 2 2 0 RIGHT = Inr (1, False)
   \<and> GridWorldMDP_transition 2 2 0 UP = Inr (0, True)
   \<and> GridWorldMDP_transition 2 2 0 ABSORB = Inr (0, False)"
  using transition_moves [of 2 2 0 RIGHT] transition_moves [of 2 2 0 UP]
    transition_moves [of 2 2 0 ABSORB]
  by (simp add: state_to_coor_def coor_to_state_def spec_delta_def in_grid_def Actions_defs)

section \<open>Range checks of the two conversions\<close>

lemma coor_to_state_out_of_range:
  "r < 0 \<or> nr \<le> r \<or> c < 0 \<or> nc \<le> c \<Longrightarrow> coor_to_state nr nc r c = Inl AssertionError"
  by (auto simp: coor_to_state_def)

lemma state_to_coor_too_large:
  "nr * nc \<le> s \<Longrightarrow> state_to_coor nr nc s = Inl AssertionError"
  by (simp add: state_to_coor_def)

lemma state_to_coor_negative:
  assumes "0 < nr" "0 < nc" "s < 0"
  shows "state_to_coor nr nc s = Inr (s div nc, s mod nc)"
proof -
  have "0 \<le> nr * nc" using assms by simp
  then have "s < nr * nc" using assms by linarith
  then show ?thesis using assms by (simp add: state_to_coor_def)
qed

text \<open>
  C6. \<open>coor_to_state\<close> rejects every coordinate outside the grid, and \<open>state_to_coor\<close>
  rejects every state \<open>s \<ge> rows*cols\<close>; but \<open>state_to_coor\<close> asserts only the upper
  bound, so a negative state is accepted: on the 2 x 2 grid the state \<open>-1\<close> is decoded to
  the coordinate \<open>(-1, 1)\<close>, and the transition DOWN from it is reported as a legal move
  to state 1.
\<close>

theorem state_to_coor_accepts_negative_state:
  "state_to_coor 2 2 (- 1) = Inr (- 1, 1)
   \<and> GridWorldMDP_transition 2 2 (- 1) DOWN = Inr (1, False)"
  by (simp add: state_to_coor_def GridWorldMDP_transition_def coor_to_state_def Actions_defs)

section \<open>Arrays\<close>

lemma norm_index_nonneg: "0 \<le> i \<Longrightarrow> i < int n \<Longrightarrow> norm_index n i = Inr (nat i)"
  by (simp add: norm_index_def)

lemma norm_index_neg: "- int n \<le> i \<Longrightarrow> i < 0 \<Longrightarrow> norm_index n i = Inr (nat (int n + i))"
  by (simp add: norm_index_def)

lemma norm_index_Inr: "norm_index n i = Inr j \<Longrightarrow> j < n"
  by (auto simp: norm_index_def split: if_splits)

lemma norm_index_Inl: "norm_index n i = Inl e \<Longrightarrow> e = IndexError \<and> (i < - int n \<or> int n \<le> i)"
  by (auto simp: norm_index_def split: if_splits)

lemma table_ok_update:
  assumes "table_ok n k t"
  shows "table_ok n k (t\<lparr>cells := (cells t)[i := (cells t ! i)[j := v]]\<rparr>)"
proof -
  have "\<forall>row \<in> set ((cells t)[i := (cells t ! i)[j := v]]). length row = k"
  proof
    fix row assume "row \<in> set ((cells t)[i := (cells t ! i)[j := v]])"
    then have "row = (cells t ! i)[j := v] \<and> i < length (cells t) \<or> row \<in> set (cells t)"
      by (metis in_set_conv_nth length_list_update nth_list_update_eq nth_list_update_neq)
    then show "length row = k" using assms by (auto simp: table_ok_def)
  qed
  then show ?thesis using assms by (simp add: table_ok_def)
qed

lemma cell_update:
  assumes "table_ok n k t" "a < n" "b < k"
  shows "cells (t\<lparr>cells := (cells t)[i := (cells t ! i)[j := v]]\<rparr>) ! a ! b =
           (if a = i \<and> b = j then v else cells t ! a ! b)"
proof -
  have la: "a < length (cells t)" using assms by (simp add: table_ok_def)
  then have "length (cells t ! a) = k" using assms by (simp add: table_ok_def)
  then show ?thesis using la assms(3) by (cases "a = i") auto
qed

lemma table_ok_fill_column:
  assumes "table_ok n k t"
  shows "table_ok n k (t\<lparr>cells := map (\<lambda>row. row[j := v]) (cells t)\<rparr>)"
  using assms by (auto simp: table_ok_def)

lemma cell_fill_column:
  assumes "table_ok n k t" "a < n" "b < k"
  shows "cells (t\<lparr>cells := map (\<lambda>row. row[j := v]) (cells t)\<rparr>) ! a ! b =
           (if b = j then v else cells t ! a ! b)"
proof -
  have la: "a < length (cells t)" using assms by (simp add: table_ok_def)
  then have "length (cells t ! a) = k" using assms by (simp add: table_ok_def)
  then show ?thesis using la assms(3) by auto
qed

lemma nd_setitem_valid:
  assumes "table_ok n k t" "0 \<le> i" "i < int n" "0 \<le> j" "j < int k"
  shows "nd_setitem t i j v =
           Inr (t\<lparr>cells := (cells t)[nat i := (cells t ! nat i)[nat j := v]]\<rparr>)"
  using assms by (simp add: nd_setitem_def table_ok_def norm_index_nonneg)

lemma nd_getitem_valid:
  assumes "table_ok n k t" "0 \<le> i" "i < int n" "0 \<le> j" "j < int k"
  shows "nd_getitem t i j = Inr (cells t ! nat i ! nat j)"
  using assms by (simp add: nd_getitem_def table_ok_def norm_index_nonneg)

section \<open>The nested loop of the constructor\<close>

lemma filled_initial:
  assumes "0 < nr" "0 < nc"
  shows "filled nr nc rd dflt {} (nd_fill (np_zeros (nat (nr * nc)) (nat len_Actions)) dflt)"
  by (simp add: filled_def table_ok_def nd_fill_def np_zeros_def len_Actions_def)

lemma fill_entry_step:
  assumes "0 < nr" "0 < nc" "0 \<le> s" "s < nr * nc" "0 \<le> a" "a < 9"
    and f: "filled nr nc rd dflt D t"
  shows "\<exists>t'. fill_entry nr nc rd s a t = Inr t'
            \<and> filled nr nc rd dflt (insert (nat s, nat a) D) t'"
proof -
  let ?n = "nat (nr * nc)"
  let ?d = "spec_dest nc s a"
  have ok: "table_ok ?n 9 t" using f by (simp add: filled_def)
  have sn: "s < int ?n" using assms by simp
  have tr: "GridWorldMDP_transition nr nc s a =
           (if in_grid nr nc ?d then Inr (fst ?d * nc + snd ?d, False) else Inr (s, True))"
    using assms(1-6) by (rule transition_eq)
  have set_v: "\<And>v. nd_setitem t s a v =
      Inr (t\<lparr>cells := (cells t)[nat s := (cells t ! nat s)[nat a := v]]\<rparr>)"
    using ok assms(3,5,6) sn by (intro nd_setitem_valid [where n = ?n and k = 9]) auto
  have upd: "\<And>v. spec_entry nr nc rd dflt s a = v \<Longrightarrow>
      filled nr nc rd dflt (insert (nat s, nat a) D)
        (t\<lparr>cells := (cells t)[nat s := (cells t ! nat s)[nat a := v]]\<rparr>)"
  proof -
    fix v assume v: "spec_entry nr nc rd dflt s a = v"
    show "filled nr nc rd dflt (insert (nat s, nat a) D)
        (t\<lparr>cells := (cells t)[nat s := (cells t ! nat s)[nat a := v]]\<rparr>)"
      unfolding filled_def
    proof (intro conjI allI impI)
      show "table_ok ?n 9 (t\<lparr>cells := (cells t)[nat s := (cells t ! nat s)[nat a := v]]\<rparr>)"
        using ok by (rule table_ok_update)
    next
      fix i j assume i: "i < ?n" and j: "j < (9::nat)"
      have c: "cells (t\<lparr>cells := (cells t)[nat s := (cells t ! nat s)[nat a := v]]\<rparr>) ! i ! j
          = (if i = nat s \<and> j = nat a then v else cells t ! i ! j)"
        using ok i j by (rule cell_update)
      have old: "cells t ! i ! j =
          (if (i, j) \<in> D then spec_entry nr nc rd dflt (int i) (int j) else dflt)"
        using f i j by (simp add: filled_def)
      show "cells (t\<lparr>cells := (cells t)[nat s := (cells t ! nat s)[nat a := v]]\<rparr>) ! i ! j =
          (if (i, j) \<in> insert (nat s, nat a) D
           then spec_entry nr nc rd dflt (int i) (int j) else dflt)"
        using c old v assms(3,5) by auto
    qed
  qed
  show ?thesis
  proof (cases "in_grid nr nc ?d")
    case False
    have st: "state_to_coor nr nc s = Inr (s div nc, s mod nc)"
      using assms by (simp add: state_to_coor_valid)
    have "spec_entry nr nc rd dflt s a = NegInf" using False by (simp add: spec_entry_def)
    from upd [OF this] show ?thesis
      using False tr st set_v by (simp add: fill_entry_def)
  next
    case True
    have eb: "0 \<le> fst ?d * nc + snd ?d \<and> fst ?d * nc + snd ?d < nr * nc
         \<and> (fst ?d * nc + snd ?d) div nc = fst ?d \<and> (fst ?d * nc + snd ?d) mod nc = snd ?d"
      using True by (intro encode_bounds) (auto simp: in_grid_def)
    have st: "state_to_coor nr nc (fst ?d * nc + snd ?d) = Inr ?d"
      using eb assms(2) by (simp add: state_to_coor_def)
    show ?thesis
    proof (cases "map_of rd ?d")
      case None
      have e: "spec_entry nr nc rd dflt s a = dflt" using True None by (simp add: spec_entry_def)
      have same: "filled nr nc rd dflt (insert (nat s, nat a) D) t"
        unfolding filled_def
      proof (intro conjI allI impI)
        show "table_ok ?n 9 t" by (rule ok)
      next
        fix i j assume i: "i < ?n" and j: "j < (9::nat)"
        have old: "cells t ! i ! j =
          (if (i, j) \<in> D then spec_entry nr nc rd dflt (int i) (int j) else dflt)"
          using f i j by (simp add: filled_def)
        show "cells t ! i ! j =
          (if (i, j) \<in> insert (nat s, nat a) D
           then spec_entry nr nc rd dflt (int i) (int j) else dflt)"
          using old e assms(3,5) by auto
      qed
      show ?thesis using True None tr st same by (simp add: fill_entry_def)
    next
      case (Some v)
      have "spec_entry nr nc rd dflt s a = v" using True Some by (simp add: spec_entry_def)
      from upd [OF this] show ?thesis
        using True Some tr st set_v by (simp add: fill_entry_def)
    qed
  qed
qed

lemma for_each_invariant:
  assumes step: "\<And>x X st. x \<in> set xs \<Longrightarrow> I X st \<Longrightarrow>
                   \<exists>st'. body x st = Inr st' \<and> I (insert x X) st'"
    and init: "I X st"
  shows "\<exists>st'. for_each body xs st = Inr st' \<and> I (X \<union> set xs) st'"
  using assms
proof (induction xs arbitrary: X st)
  case Nil
  then show ?case by simp
next
  case (Cons x xs)
  from Cons.prems(1) [of x X st] Cons.prems(2)
  obtain st1 where b: "body x st = Inr st1" and i1: "I (insert x X) st1" by auto
  have "\<exists>st'. for_each body xs st1 = Inr st' \<and> I (insert x X \<union> set xs) st'"
  proof (rule Cons.IH)
    show "I (insert x X) st1" by (rule i1)
  next
    fix y Y st2 assume "y \<in> set xs" "I Y st2"
    then show "\<exists>st'. body y st2 = Inr st' \<and> I (insert y Y) st'"
      using Cons.prems(1) [of y Y st2] by simp
  qed
  then show ?case using b by simp
qed

lemma py_range_set: "set (py_range n) = {a. 0 \<le> a \<and> a < n}"
proof -
  have "\<And>a. (a \<in> int ` {0..<nat n}) = (0 \<le> a \<and> a < n)"
  proof
    fix a assume "a \<in> int ` {0..<nat n}" then show "0 \<le> a \<and> a < n" by auto
  next
    fix a assume a: "0 \<le> a \<and> a < n"
    then have "nat a \<in> {0..<nat n}" and "int (nat a) = a" by auto
    then show "a \<in> int ` {0..<nat n}" by (metis image_eqI)
  qed
  then show ?thesis by (auto simp: py_range_def)
qed

lemma fill_row:
  assumes "0 < nr" "0 < nc" "0 \<le> s" "s < nr * nc"
    and f: "filled nr nc rd dflt D t"
  shows "\<exists>t'. for_each (\<lambda>a. fill_entry nr nc rd s a) (py_range len_Actions) t = Inr t'
            \<and> filled nr nc rd dflt (D \<union> (\<lambda>a. (nat s, nat a)) ` set (py_range len_Actions)) t'"
proof -
  let ?I = "\<lambda>X t. filled nr nc rd dflt (D \<union> (\<lambda>a. (nat s, nat a)) ` X) t"
  have "\<exists>t'. for_each (\<lambda>a. fill_entry nr nc rd s a) (py_range len_Actions) t = Inr t'
            \<and> ?I ({} \<union> set (py_range len_Actions)) t'"
  proof (rule for_each_invariant [where I = ?I])
    show "?I {} t" using f by simp
  next
    fix a X t1
    assume a: "a \<in> set (py_range len_Actions)" and i: "?I X t1"
    from a have ab: "0 \<le> a" "a < 9" by (simp_all add: py_range_set len_Actions_def)
    from fill_entry_step [OF assms(1-4) ab i]
    show "\<exists>t'. fill_entry nr nc rd s a t1 = Inr t' \<and> ?I (insert a X) t'" by simp
  qed
  then show ?thesis by simp
qed

lemma fill_rewards_result:
  assumes "0 < nr" "0 < nc"
  shows "\<exists>t. fill_rewards nr nc rd (nr * nc) len_Actions
                (nd_fill (np_zeros (nat (nr * nc)) (nat len_Actions)) dflt) = Inr t
            \<and> table_ok (nat (nr * nc)) 9 t
            \<and> (\<forall>i < nat (nr * nc). \<forall>j < 9.
                  cells t ! i ! j = spec_entry nr nc rd dflt (int i) (int j))"
proof -
  let ?R = "set (py_range len_Actions)"
  let ?I = "\<lambda>X t. filled nr nc rd dflt ((\<lambda>(s, a). (nat s, nat a)) ` (X \<times> ?R)) t"
  let ?t0 = "nd_fill (np_zeros (nat (nr * nc)) (nat len_Actions)) dflt"
  have "\<exists>t. for_each (\<lambda>s. for_each (\<lambda>a. fill_entry nr nc rd s a) (py_range len_Actions))
                (py_range (nr * nc)) ?t0 = Inr t
            \<and> ?I ({} \<union> set (py_range (nr * nc))) t"
  proof (rule for_each_invariant [where I = ?I])
    show "?I {} ?t0" using filled_initial [OF assms] by simp
  next
    fix s X t1
    assume s: "s \<in> set (py_range (nr * nc))" and i: "?I X t1"
    from s have sb: "0 \<le> s" "s < nr * nc" by (simp_all add: py_range_set)
    have eq: "(\<lambda>(s, a). (nat s, nat a)) ` (X \<times> ?R) \<union> (\<lambda>a. (nat s, nat a)) ` ?R
        = (\<lambda>(s, a). (nat s, nat a)) ` (insert s X \<times> ?R)"
      by auto
    from fill_row [OF assms sb i]
    show "\<exists>t'. for_each (\<lambda>a. fill_entry nr nc rd s a) (py_range len_Actions) t1 = Inr t'
            \<and> ?I (insert s X) t'"
      by (simp only: eq)
  qed
  then obtain t where run: "fill_rewards nr nc rd (nr * nc) len_Actions ?t0 = Inr t"
    and fin: "?I (set (py_range (nr * nc))) t"
    by (auto simp: fill_rewards_def)
  have "\<forall>i < nat (nr * nc). \<forall>j < 9.
          cells t ! i ! j = spec_entry nr nc rd dflt (int i) (int j)"
  proof (intro allI impI)
    fix i j :: nat assume i: "i < nat (nr * nc)" and j: "j < 9"
    have "(int i, int j) \<in> set (py_range (nr * nc)) \<times> ?R"
      using i j by (simp add: py_range_set len_Actions_def)
    then have "(\<lambda>(s, a). (nat s, nat a)) (int i, int j)
        \<in> (\<lambda>(s, a). (nat s, nat a)) ` (set (py_range (nr * nc)) \<times> ?R)"
      by (rule imageI)
    then have "(i, j) \<in> (\<lambda>(s, a). (nat s, nat a)) ` (set (py_range (nr * nc)) \<times> ?R)"
      by simp
    then show "cells t ! i ! j = spec_entry nr nc rd dflt (int i) (int j)"
      using fin i j by (simp add: filled_def)
  qed
  moreover have "table_ok (nat (nr * nc)) 9 t" using fin by (simp add: filled_def)
  ultimately show ?thesis using run by blast
qed

section \<open>Goal reconfiguration\<close>

lemma nd_fill_column_absorb:
  assumes "table_ok n 9 t"
  shows "nd_fill_column t ABSORB v = Inr (t\<lparr>cells := map (\<lambda>row. row[8 := v]) (cells t)\<rparr>)"
  using assms by (simp add: nd_fill_column_def table_ok_def norm_index_def ABSORB_def)

lemma set_goal_None:
  assumes "gridworld_ok h m"
  shows "set_goal h m None =
           (Inr (), h[rewards m := (h ! rewards m)
                        \<lparr>cells := map (\<lambda>row. row[8 := NegInf]) (cells (h ! rewards m))\<rparr>])"
  using assms nd_fill_column_absorb [of "nat (rows m * cols m)" "h ! rewards m" NegInf]
  by (simp add: set_goal_def gridworld_ok_def)

lemma set_goal_Some:
  assumes "gridworld_ok h m"
    and t1: "t1 = (h ! rewards m)\<lparr>cells := map (\<lambda>row. row[8 := NegInf]) (cells (h ! rewards m))\<rparr>"
  shows "set_goal h m (Some g) =
           (case norm_index (nat (rows m * cols m)) g of
              Inl e \<Rightarrow> (Inl e, h[rewards m := t1])
            | Inr g' \<Rightarrow>
                (Inr (), h[rewards m := t1\<lparr>cells := (cells t1)[g' := (cells t1 ! g')[8 := Fin 0]]\<rparr>]))"
proof -
  let ?n = "nat (rows m * cols m)"
  have ok: "table_ok ?n 9 (h ! rewards m)" using assms by (simp add: gridworld_ok_def)
  have fc: "nd_fill_column (h ! rewards m) ABSORB NegInf = Inr t1"
    using nd_fill_column_absorb [OF ok] t1 by simp
  have ok1: "table_ok ?n 9 t1" using table_ok_fill_column [OF ok] t1 by simp
  have si: "nd_setitem t1 g ABSORB (Fin 0) =
      (case norm_index ?n g of
         Inl e \<Rightarrow> Inl e
       | Inr g' \<Rightarrow> Inr (t1\<lparr>cells := (cells t1)[g' := (cells t1 ! g')[8 := Fin 0]]\<rparr>))"
  proof -
    have "norm_index (shape1 t1) 8 = Inr 8"
      using ok1 by (simp add: table_ok_def norm_index_def)
    then show ?thesis
      using ok1 by (simp add: nd_setitem_def table_ok_def ABSORB_def split: sum.splits)
  qed
  show ?thesis
    using fc si by (simp add: set_goal_def split: sum.splits)
qed

lemma set_goal_cells:
  assumes ok: "gridworld_ok h m"
    and i: "i < nat (rows m * cols m)" and j: "j < 9"
  shows "cells (snd (set_goal h m goal) ! rewards m) ! i ! j =
           (if j = 8
            then (case goal of
                    None \<Rightarrow> NegInf
                  | Some g \<Rightarrow> if norm_index (nat (rows m * cols m)) g = Inr i then Fin 0 else NegInf)
            else cells (h ! rewards m) ! i ! j)"
proof -
  let ?n = "nat (rows m * cols m)"
  let ?t = "h ! rewards m"
  let ?t1 = "?t\<lparr>cells := map (\<lambda>row. row[8 := NegInf]) (cells ?t)\<rparr>"
  have tok: "table_ok ?n 9 ?t" and p: "rewards m < length h"
    using ok by (simp_all add: gridworld_ok_def)
  have ok1: "table_ok ?n 9 ?t1" using tok by (rule table_ok_fill_column)
  have c1: "cells ?t1 ! i ! j = (if j = 8 then NegInf else cells ?t ! i ! j)"
    using tok i j by (rule cell_fill_column)
  show ?thesis
  proof (cases goal)
    case None
    then show ?thesis using set_goal_None [OF ok] p c1 by simp
  next
    case (Some g)
    show ?thesis
    proof (cases "norm_index ?n g")
      case (Inl e)
      then show ?thesis
        using Some set_goal_Some [OF ok refl, of g] p c1 by simp
    next
      case (Inr g')
      have c2: "cells (?t1\<lparr>cells := (cells ?t1)[g' := (cells ?t1 ! g')[8 := Fin 0]]\<rparr>) ! i ! j
          = (if i = g' \<and> j = 8 then Fin 0 else cells ?t1 ! i ! j)"
        using ok1 i j by (rule cell_update)
      have "snd (set_goal h m goal) ! rewards m =
          ?t1\<lparr>cells := (cells ?t1)[g' := (cells ?t1 ! g')[8 := Fin 0]]\<rparr>"
        using Some Inr set_goal_Some [OF ok refl, of g] p by simp
      then show ?thesis using c1 c2 Some Inr by auto
    qed
  qed
qed

lemma set_goal_store:
  assumes ok: "gridworld_ok h m"
  shows "length (snd (set_goal h m goal)) = length h
         \<and> (\<forall>p. p \<noteq> rewards m \<longrightarrow> snd (set_goal h m goal) ! p = h ! p)
         \<and> gridworld_ok (snd (set_goal h m goal)) m"
proof -
  let ?n = "nat (rows m * cols m)"
  let ?t = "h ! rewards m"
  let ?t1 = "?t\<lparr>cells := map (\<lambda>row. row[8 := NegInf]) (cells ?t)\<rparr>"
  have tok: "table_ok ?n 9 ?t" and p: "rewards m < length h"
    using ok by (simp_all add: gridworld_ok_def)
  have ok1: "table_ok ?n 9 ?t1" using tok by (rule table_ok_fill_column)
  show ?thesis
  proof (cases goal)
    case None
    then show ?thesis using set_goal_None [OF ok] ok ok1 by (simp add: gridworld_ok_def)
  next
    case (Some g)
    show ?thesis
    proof (cases "norm_index ?n g")
      case (Inl e)
      then show ?thesis
        using Some set_goal_Some [OF ok refl, of g] ok ok1 by (simp add: gridworld_ok_def)
    next
      case (Inr g')
      have "table_ok ?n 9 (?t1\<lparr>cells := (cells ?t1)[g' := (cells ?t1 ! g')[8 := Fin 0]]\<rparr>)"
        using ok1 by (rule table_ok_update)
      then show ?thesis
        using Some Inr set_goal_Some [OF ok refl, of g] ok by (simp add: gridworld_ok_def)
    qed
  qed
qed

lemma set_goal_result:
  assumes ok: "gridworld_ok h m"
  shows "fst (set_goal h m goal) =
           (case goal of
              None \<Rightarrow> Inr ()
            | Some g \<Rightarrow>
                (case norm_index (nat (rows m * cols m)) g of
                   Inl e \<Rightarrow> Inl IndexError
                 | Inr g' \<Rightarrow> Inr ()))"
proof (cases goal)
  case None
  then show ?thesis using set_goal_None [OF ok] by simp
next
  case (Some g)
  then show ?thesis
    using set_goal_Some [OF ok refl, of g] norm_index_Inl [of "nat (rows m * cols m)" g]
    by (auto split: sum.splits)
qed

lemma rewardTable_after_set_goal:
  assumes ok: "gridworld_ok h m"
    and s: "0 \<le> s" "s < rows m * cols m" and a: "0 \<le> a" "a < 9"
  shows "nd_getitem (snd (set_goal h m goal) ! rewards m) s a =
           Inr (if a = ABSORB
                then (case goal of
                        None \<Rightarrow> NegInf
                      | Some g \<Rightarrow>
                          if norm_index (nat (rows m * cols m)) g = Inr (nat s)
                          then Fin 0 else NegInf)
                else cells (h ! rewards m) ! nat s ! nat a)"
proof -
  let ?n = "nat (rows m * cols m)"
  let ?h' = "snd (set_goal h m goal)"
  have "gridworld_ok ?h' m" using set_goal_store [OF ok] by simp
  then have tok: "table_ok ?n 9 (?h' ! rewards m)" by (simp add: gridworld_ok_def)
  have g: "nd_getitem (?h' ! rewards m) s a = Inr (cells (?h' ! rewards m) ! nat s ! nat a)"
    using tok s a by (intro nd_getitem_valid [where n = ?n and k = 9]) auto
  have i: "nat s < ?n" and j: "nat a < 9" using s a by auto
  have a8: "(nat a = 8) = (a = ABSORB)" using a by (auto simp: ABSORB_def)
  show ?thesis
    unfolding g set_goal_cells [OF ok i j] a8 by simp
qed

lemma scenario_ok: "gridworld_ok scenario_heap scenario_grid"
  by code_simp

text \<open>
  C3. After \<open>set_goal(g)\<close> with \<open>g\<close> in \<open>[0, rows*cols)\<close> the call has succeeded and the
  ABSORB entry of every state \<open>s\<close> in \<open>[0, rows*cols)\<close> is 0 if \<open>s = g\<close> and negative
  infinity otherwise; after \<open>set_goal(None)\<close> it is negative infinity for every state.
  The table before the call is arbitrary.
\<close>

theorem set_goal_absorb_column:
  assumes "gridworld_ok h m"
  shows "(0 \<le> g \<and> g < rows m * cols m \<longrightarrow>
            fst (set_goal h m (Some g)) = Inr ()
            \<and> (\<forall>s. 0 \<le> s \<and> s < rows m * cols m \<longrightarrow>
                  nd_getitem (snd (set_goal h m (Some g)) ! rewards m) s ABSORB =
                    Inr (if s = g then Fin 0 else NegInf)))
       \<and> fst (set_goal h m None) = Inr ()
       \<and> (\<forall>s. 0 \<le> s \<and> s < rows m * cols m \<longrightarrow>
             nd_getitem (snd (set_goal h m None) ! rewards m) s ABSORB = Inr NegInf)"
proof (intro conjI impI allI)
  assume g: "0 \<le> g \<and> g < rows m * cols m"
  then have "norm_index (nat (rows m * cols m)) g = Inr (nat g)"
    by (simp add: norm_index_nonneg)
  then show "fst (set_goal h m (Some g)) = Inr ()"
    using set_goal_result [OF assms, of "Some g"] by simp
next
  fix s assume g: "0 \<le> g \<and> g < rows m * cols m" and s: "0 \<le> s \<and> s < rows m * cols m"
  have n: "norm_index (nat (rows m * cols m)) g = Inr (nat g)"
    using g by (simp add: norm_index_nonneg)
  have "(nat g = nat s) = (s = g)" using g s by auto
  then show "nd_getitem (snd (set_goal h m (Some g)) ! rewards m) s ABSORB =
      Inr (if s = g then Fin 0 else NegInf)"
    using rewardTable_after_set_goal [OF assms, of s ABSORB "Some g"] s n
    by (simp add: ABSORB_def)
next
  show "fst (set_goal h m None) = Inr ()"
    using set_goal_result [OF assms, of None] by simp
next
  fix s assume s: "0 \<le> s \<and> s < rows m * cols m"
  then show "nd_getitem (snd (set_goal h m None) ! rewards m) s ABSORB = Inr NegInf"
    using rewardTable_after_set_goal [OF assms, of s ABSORB None]
    by (simp add: ABSORB_def)
qed

theorem set_goal_absorb_column_witness:
  "gridworld_ok scenario_heap scenario_grid
   \<and> fst (set_goal scenario_heap scenario_grid (Some 1)) = Inr ()
   \<and> nd_getitem (snd (set_goal scenario_heap scenario_grid (Some 1)) ! rewards scenario_grid)
       1 ABSORB = Inr (Fin 0)
   \<and> nd_getitem (snd (set_goal scenario_heap scenario_grid (Some 1)) ! rewards scenario_grid)
       3 ABSORB = Inr NegInf
   \<and> nd_getitem (snd (set_goal scenario_heap scenario_grid None) ! rewards scenario_grid)
       3 ABSORB = Inr NegInf"
proof -
  have r: "rows scenario_grid * cols scenario_grid = 4" by code_simp
  show ?thesis
    using set_goal_absorb_column [OF scenario_ok, of 1] scenario_ok r by simp
qed

lemma table_ext:
  assumes "table_ok n k t" "table_ok n k t'"
    and eq: "\<And>i j. i < n \<Longrightarrow> j < k \<Longrightarrow> cells t ! i ! j = cells t' ! i ! j"
  shows "t = t'"
proof -
  have len: "length (cells t) = n" "length (cells t') = n"
    using assms by (simp_all add: table_ok_def)
  have "cells t = cells t'"
  proof (rule nth_equalityI)
    show "length (cells t) = length (cells t')" using len by simp
  next
    fix i assume i: "i < length (cells t)"
    then have li: "length (cells t ! i) = k" "length (cells t' ! i) = k"
      using assms len by (simp_all add: table_ok_def)
    show "cells t ! i = cells t' ! i"
    proof (rule nth_equalityI)
      show "length (cells t ! i) = length (cells t' ! i)" using li by simp
    next
      fix j assume "j < length (cells t ! i)"
      then show "cells t ! i ! j = cells t' ! i ! j" using eq i li len by simp
    qed
  qed
  then show ?thesis using assms by (simp add: table_ok_def)
qed

lemma set_goal_idempotent:
  assumes ok: "gridworld_ok h m"
  shows "set_goal (snd (set_goal h m goal)) m goal = set_goal h m goal"
proof -
  let ?n = "nat (rows m * cols m)"
  let ?h1 = "snd (set_goal h m goal)"
  let ?h2 = "snd (set_goal ?h1 m goal)"
  have s1: "length ?h1 = length h" "\<forall>p. p \<noteq> rewards m \<longrightarrow> ?h1 ! p = h ! p"
    and ok1: "gridworld_ok ?h1 m"
    using set_goal_store [OF ok, of goal] by simp_all
  have s2: "length ?h2 = length ?h1" "\<forall>p. p \<noteq> rewards m \<longrightarrow> ?h2 ! p = ?h1 ! p"
    and ok2: "gridworld_ok ?h2 m"
    using set_goal_store [OF ok1, of goal] by simp_all
  have tab: "?h2 ! rewards m = ?h1 ! rewards m"
  proof (rule table_ext [where n = ?n and k = 9])
    show "table_ok ?n 9 (?h2 ! rewards m)" using ok2 by (simp add: gridworld_ok_def)
    show "table_ok ?n 9 (?h1 ! rewards m)" using ok1 by (simp add: gridworld_ok_def)
  next
    fix i j :: nat assume i: "i < ?n" and j: "j < 9"
    show "cells (?h2 ! rewards m) ! i ! j = cells (?h1 ! rewards m) ! i ! j"
      unfolding set_goal_cells [OF ok1 i j] set_goal_cells [OF ok i j] by simp
  qed
  have "?h2 = ?h1"
  proof (rule nth_equalityI)
    show "length ?h2 = length ?h1" using s2 by simp
  next
    fix p assume "p < length ?h2"
    show "?h2 ! p = ?h1 ! p" using tab s2(2) by (cases "p = rewards m") auto
  qed
  moreover have "fst (set_goal ?h1 m goal) = fst (set_goal h m goal)"
    unfolding set_goal_result [OF ok1] set_goal_result [OF ok] by simp
  ultimately show ?thesis by (simp add: prod_eq_iff)
qed

text \<open>
  C7. A call \<open>set_goal(g)\<close>, whatever \<open>g\<close> is and whether or not it raises, leaves every
  entry of the reward table in a column other than ABSORB as it was; and a second call
  with the same argument returns the same result and the same store as the first.
\<close>

theorem set_goal_frame_idempotent:
  assumes "gridworld_ok h m"
  shows "(\<forall>s a. 0 \<le> s \<and> s < rows m * cols m \<and> 0 \<le> a \<and> a < 9 \<and> a \<noteq> ABSORB \<longrightarrow>
            nd_getitem (snd (set_goal h m goal) ! rewards m) s a
              = nd_getitem (h ! rewards m) s a)
       \<and> set_goal (snd (set_goal h m goal)) m goal = set_goal h m goal"
proof (intro conjI allI impI)
  fix s a
  assume sa: "0 \<le> s \<and> s < rows m * cols m \<and> 0 \<le> a \<and> a < 9 \<and> a \<noteq> ABSORB"
  have tok: "table_ok (nat (rows m * cols m)) 9 (h ! rewards m)"
    using assms by (simp add: gridworld_ok_def)
  have "nd_getitem (h ! rewards m) s a = Inr (cells (h ! rewards m) ! nat s ! nat a)"
    using tok sa by (intro nd_getitem_valid [where n = "nat (rows m * cols m)" and k = 9]) auto
  then show "nd_getitem (snd (set_goal h m goal) ! rewards m) s a
      = nd_getitem (h ! rewards m) s a"
    using rewardTable_after_set_goal [OF assms, of s a goal] sa by simp
next
  show "set_goal (snd (set_goal h m goal)) m goal = set_goal h m goal"
    using assms by (rule set_goal_idempotent)
qed

theorem set_goal_frame_idempotent_witness:
  "gridworld_ok scenario_heap scenario_grid
   \<and> nd_getitem (snd (set_goal scenario_heap scenario_grid (Some 0)) ! rewards scenario_grid)
       1 DOWN = nd_getitem (scenario_heap ! rewards scenario_grid) 1 DOWN
   \<and> set_goal (snd (set_goal scenario_heap scenario_grid (Some 0))) scenario_grid (Some 0)
       = set_goal scenario_heap scenario_grid (Some 0)"
proof -
  have r: "rows scenario_grid * cols scenario_grid = 4" by code_simp
  show ?thesis
    using set_goal_frame_idempotent [OF scenario_ok, of "Some 0"] scenario_ok r
    by (simp add: Actions_defs)
qed

text \<open>
  C10. \<open>set_goal(g)\<close> with \<open>-rows*cols \<le> g < 0\<close> does not fail: numpy counts the index
  from the end, so the call has the result and leaves the store of
  \<open>set_goal(rows*cols + g)\<close>, with 0 in the ABSORB entry of state \<open>rows*cols + g\<close> and
  negative infinity in the ABSORB entry of every other state.
\<close>

theorem set_goal_negative_index:
  assumes "gridworld_ok h m" and "- (rows m * cols m) \<le> g" and "g < 0"
  shows "fst (set_goal h m (Some g)) = Inr ()
       \<and> set_goal h m (Some g) = set_goal h m (Some (rows m * cols m + g))
       \<and> (\<forall>s. 0 \<le> s \<and> s < rows m * cols m \<longrightarrow>
             nd_getitem (snd (set_goal h m (Some g)) ! rewards m) s ABSORB =
               Inr (if s = rows m * cols m + g then Fin 0 else NegInf))"
proof -
  let ?n = "nat (rows m * cols m)"
  have pos: "0 < rows m * cols m" using assms(1) by (simp add: gridworld_ok_def)
  have ng: "norm_index ?n g = Inr (nat (rows m * cols m + g))"
    using assms(2,3) pos norm_index_neg [of ?n g] by simp
  have np: "norm_index ?n (rows m * cols m + g) = Inr (nat (rows m * cols m + g))"
    using assms(2,3) pos by (intro norm_index_nonneg) auto
  have r: "fst (set_goal h m (Some g)) = Inr ()"
    using set_goal_result [OF assms(1), of "Some g"] ng by simp
  have e: "set_goal h m (Some g) = set_goal h m (Some (rows m * cols m + g))"
    unfolding set_goal_Some [OF assms(1) refl] ng np by simp
  have c: "\<forall>s. 0 \<le> s \<and> s < rows m * cols m \<longrightarrow>
             nd_getitem (snd (set_goal h m (Some g)) ! rewards m) s ABSORB =
               Inr (if s = rows m * cols m + g then Fin 0 else NegInf)"
  proof (intro allI impI)
    fix s assume s: "0 \<le> s \<and> s < rows m * cols m"
    have "(nat (rows m * cols m + g) = nat s) = (s = rows m * cols m + g)"
      using s assms(2) by auto
    then show "nd_getitem (snd (set_goal h m (Some g)) ! rewards m) s ABSORB =
               Inr (if s = rows m * cols m + g then Fin 0 else NegInf)"
      using rewardTable_after_set_goal [OF assms(1), of s ABSORB "Some g"] s ng
      by (simp add: ABSORB_def)
  qed
  show ?thesis using r e c by blast
qed

theorem set_goal_negative_index_witness:
  "gridworld_ok scenario_heap scenario_grid
   \<and> fst (set_goal scenario_heap scenario_grid (Some (- 1))) = Inr ()
   \<and> set_goal scenario_heap scenario_grid (Some (- 1))
       = set_goal scenario_heap scenario_grid (Some 3)
   \<and> nd_getitem (snd (set_goal scenario_heap scenario_grid (Some (- 1))) ! rewards scenario_grid)
       3 ABSORB = Inr (Fin 0)
   \<and> nd_getitem (snd (set_goal scenario_heap scenario_grid (Some (- 1))) ! rewards scenario_grid)
       0 ABSORB = Inr NegInf"
proof -
  have r: "rows scenario_grid * cols scenario_grid = 4" by code_simp
  have le: "- (rows scenario_grid * cols scenario_grid) \<le> - 1" using r by simp
  have lt: "(- 1 :: int) < 0" by simp
  note t = set_goal_negative_index [OF scenario_ok le lt]
  have a: "fst (set_goal scenario_heap scenario_grid (Some (- 1))) = Inr ()"
    using t by blast
  have b: "set_goal scenario_heap scenario_grid (Some (- 1))
             = set_goal scenario_heap scenario_grid
                 (Some (rows scenario_grid * cols scenario_grid + - 1))"
    using t by blast
  have c: "\<forall>s. 0 \<le> s \<and> s < rows scenario_grid * cols scenario_grid \<longrightarrow>
             nd_getitem (snd (set_goal scenario_heap scenario_grid (Some (- 1)))
                 ! rewards scenario_grid) s ABSORB =
               Inr (if s = rows scenario_grid * cols scenario_grid + - 1 then Fin 0 else NegInf)"
    using t by blast
  have b': "set_goal scenario_heap scenario_grid (Some (- 1))
              = set_goal scenario_heap scenario_grid (Some 3)"
    unfolding r using b unfolding r by simp
  have c3: "nd_getitem (snd (set_goal scenario_heap scenario_grid (Some (- 1)))
                 ! rewards scenario_grid) 3 ABSORB = Inr (Fin 0)"
    using c [rule_format, of 3] unfolding r by simp
  have c0: "nd_getitem (snd (set_goal scenario_heap scenario_grid (Some (- 1)))
                 ! rewards scenario_grid) 0 ABSORB = Inr NegInf"
    using c [rule_format, of 0] unfolding r by simp
  show ?thesis using scenario_ok a b' c3 c0 by blast
qed

section \<open>The constructor\<close>

lemma init_unfold:
  assumes "0 < nr" "0 < nc"
  shows "\<exists>t. table_ok (nat (nr * nc)) 9 t
           \<and> (\<forall>i < nat (nr * nc). \<forall>j < 9.
                 cells t ! i ! j = spec_entry nr nc rd dflt (int i) (int j))
           \<and> GridWorldMDP_init h nr nc rd goal dflt =
               (case fill_state_rewards nr nc rd (replicate (nat (nr * nc)) dflt) of
                  Inl e \<Rightarrow> (Inl e, h @ [t])
                | Inr sr \<Rightarrow>
                    (case set_goal (h @ [t])
                            \<lparr>S = PyInt (nr * nc), A = PyInt 9, rewards = length h,
                             transition = PyFun (GridWorldMDP_transition_fn nr nc),
                             rows = nr, cols = nc, state_rewards = sr\<rparr> goal of
                       (Inl e, h2) \<Rightarrow> (Inl e, h2)
                     | (Inr u, h2) \<Rightarrow>
                         (Inr \<lparr>S = PyInt (nr * nc), A = PyInt 9, rewards = length h,
                               transition = PyFun (GridWorldMDP_transition_fn nr nc),
                               rows = nr, cols = nc, state_rewards = sr\<rparr>, h2)))"
proof -
  from fill_rewards_result [OF assms, of rd dflt]
  obtain t where run: "fill_rewards nr nc rd (nr * nc) len_Actions
                (nd_fill (np_zeros (nat (nr * nc)) (nat len_Actions)) dflt) = Inr t"
    and tok: "table_ok (nat (nr * nc)) 9 t"
    and ent: "\<forall>i < nat (nr * nc). \<forall>j < 9.
                  cells t ! i ! j = spec_entry nr nc rd dflt (int i) (int j)"
    by blast
  have pos: "0 < nr * nc" using assms by simp
  have base: "MDP_init (h @ [t]) (PyInt (nr * nc)) (PyInt len_Actions) (length h)
                (PyFun (GridWorldMDP_transition_fn nr nc))
              = Inr \<lparr>S = PyInt (nr * nc), A = PyInt 9, rewards = length h,
                     transition = PyFun (GridWorldMDP_transition_fn nr nc)\<rparr>"
    using tok pos
    by (simp add: MDP_init_def isinstance_int_def py_eq_def callable_def table_ok_def
        len_Actions_def)
  have "GridWorldMDP_init h nr nc rd goal dflt =
               (case fill_state_rewards nr nc rd (replicate (nat (nr * nc)) dflt) of
                  Inl e \<Rightarrow> (Inl e, h @ [t])
                | Inr sr \<Rightarrow>
                    (case set_goal (h @ [t])
                            \<lparr>S = PyInt (nr * nc), A = PyInt 9, rewards = length h,
                             transition = PyFun (GridWorldMDP_transition_fn nr nc),
                             rows = nr, cols = nc, state_rewards = sr\<rparr> goal of
                       (Inl e, h2) \<Rightarrow> (Inl e, h2)
                     | (Inr u, h2) \<Rightarrow>
                         (Inr \<lparr>S = PyInt (nr * nc), A = PyInt 9, rewards = length h,
                               transition = PyFun (GridWorldMDP_transition_fn nr nc),
                               rows = nr, cols = nc, state_rewards = sr\<rparr>, h2)))"
    using assms run base
    by (simp add: GridWorldMDP_init_def Let_def alloc_def split: sum.splits)
  then show ?thesis using tok ent by blast
qed

lemma init_success:
  assumes "GridWorldMDP_init h nr nc rd goal dflt = (Inr m, h')"
  shows "0 < nr \<and> 0 < nc \<and> rows m = nr \<and> cols m = nc \<and> rewards m = length h
         \<and> (\<exists>t. table_ok (nat (nr * nc)) 9 t
               \<and> (\<forall>i < nat (nr * nc). \<forall>j < 9.
                     cells t ! i ! j = spec_entry nr nc rd dflt (int i) (int j))
               \<and> set_goal (h @ [t]) m goal = (Inr (), h'))"
proof -
  have nr: "0 < nr" and nc: "0 < nc"
    using assms by (auto simp: GridWorldMDP_init_def split: if_splits)
  from init_unfold [OF nr nc, of rd dflt h goal]
  obtain t where tok: "table_ok (nat (nr * nc)) 9 t"
    and ent: "\<forall>i < nat (nr * nc). \<forall>j < 9.
                 cells t ! i ! j = spec_entry nr nc rd dflt (int i) (int j)"
    and eq: "GridWorldMDP_init h nr nc rd goal dflt =
               (case fill_state_rewards nr nc rd (replicate (nat (nr * nc)) dflt) of
                  Inl e \<Rightarrow> (Inl e, h @ [t])
                | Inr sr \<Rightarrow>
                    (case set_goal (h @ [t])
                            \<lparr>S = PyInt (nr * nc), A = PyInt 9, rewards = length h,
                             transition = PyFun (GridWorldMDP_transition_fn nr nc),
                             rows = nr, cols = nc, state_rewards = sr\<rparr> goal of
                       (Inl e, h2) \<Rightarrow> (Inl e, h2)
                     | (Inr u, h2) \<Rightarrow>
                         (Inr \<lparr>S = PyInt (nr * nc), A = PyInt 9, rewards = length h,
                               transition = PyFun (GridWorldMDP_transition_fn nr nc),
                               rows = nr, cols = nc, state_rewards = sr\<rparr>, h2)))"
    by blast
  from assms eq obtain sr where
    m: "m = \<lparr>S = PyInt (nr * nc), A = PyInt 9, rewards = length h,
             transition = PyFun (GridWorldMDP_transition_fn nr nc),
             rows = nr, cols = nc, state_rewards = sr\<rparr>"
    and sg: "set_goal (h @ [t]) m goal = (Inr (), h')"
    by (auto split: sum.splits prod.splits)
  show ?thesis using nr nc m sg tok ent by auto
qed

lemma constructed_table_entry:
  assumes init: "GridWorldMDP_init h nr nc rd goal dflt = (Inr m, h')"
    and s: "0 \<le> s" "s < nr * nc" and a: "0 \<le> a" "a < 9"
  shows "gridworld_ok h' m
         \<and> nd_getitem (h' ! rewards m) s a = Inr (resolved_reward nr nc rd goal dflt s a)"
proof -
  let ?n = "nat (nr * nc)"
  from init_success [OF init]
  obtain t where nr: "0 < nr" and nc: "0 < nc"
    and rc: "rows m = nr" "cols m = nc" and p: "rewards m = length h"
    and tok: "table_ok ?n 9 t"
    and ent: "\<forall>i < ?n. \<forall>j < 9. cells t ! i ! j = spec_entry nr nc rd dflt (int i) (int j)"
    and sg: "set_goal (h @ [t]) m goal = (Inr (), h')"
    by blast
  have ok: "gridworld_ok (h @ [t]) m"
    using nr nc rc p tok by (simp add: gridworld_ok_def)
  have h': "h' = snd (set_goal (h @ [t]) m goal)" using sg by simp
  have ok': "gridworld_ok h' m" unfolding h' using set_goal_store [OF ok] by simp
  have res: "fst (set_goal (h @ [t]) m goal) = Inr ()" using sg by simp
  have old: "cells ((h @ [t]) ! rewards m) ! nat s ! nat a = spec_entry nr nc rd dflt s a"
    using ent s a p by simp
  have goal_eq: "(case goal of
                    None \<Rightarrow> NegInf
                  | Some g \<Rightarrow>
                      if norm_index (nat (rows m * cols m)) g = Inr (nat s)
                      then Fin 0 else NegInf)
        = (if resolved_goal (nr * nc) goal = Some s then Fin 0 else NegInf)"
  proof (cases goal)
    case None
    then show ?thesis by (simp add: resolved_goal_def)
  next
    case (Some g)
    from res Some set_goal_result [OF ok, of goal] rc
    have "norm_index ?n g \<noteq> Inl IndexError" by (auto split: sum.splits)
    then have "(norm_index ?n g = Inr (nat s)) = ((if g < 0 then nr * nc + g else g) = s)"
      using s by (auto simp: norm_index_def split: if_splits)
    then show ?thesis using Some rc by (simp add: resolved_goal_def)
  qed
  have "nd_getitem (h' ! rewards m) s a = Inr (resolved_reward nr nc rd goal dflt s a)"
    unfolding h'
    using rewardTable_after_set_goal [OF ok, of s a goal] s a rc old goal_eq
    by (simp add: resolved_reward_def)
  then show ?thesis using ok' by simp
qed

lemma scenario_init:
  "GridWorldMDP_init [] 2 2 [((1, 1), Fin 10)] (Some 3) (Fin 0) = (Inr scenario_grid, scenario_heap)"
proof -
  have "\<not> isl (fst scenario_2x2)" by code_simp
  then have "fst scenario_2x2 = Inr scenario_grid" by (simp add: scenario_grid_def)
  then have "scenario_2x2 = (Inr scenario_grid, scenario_heap)"
    by (simp add: scenario_heap_def prod_eq_iff)
  then show ?thesis by (simp add: scenario_2x2_def)
qed

text \<open>The values that section 8 of the specification expects in its scenario.\<close>

lemma scenario_values:
  "state_rewards scenario_grid = [Fin 0, Fin 0, Fin 0, Fin 10]"
  "nd_getitem (scenario_heap ! rewards scenario_grid) 0 RIGHT = Inr (Fin 0)"
  "nd_getitem (scenario_heap ! rewards scenario_grid) 0 UP = Inr NegInf"
  "nd_getitem (scenario_heap ! rewards scenario_grid) 3 RIGHT = Inr NegInf"
  "nd_getitem (scenario_heap ! rewards scenario_grid) 1 DOWN_RIGHT = Inr NegInf"
  "nd_getitem (scenario_heap ! rewards scenario_grid) 3 ABSORB = Inr (Fin 0)"
  "nd_getitem (scenario_heap ! rewards scenario_grid) 0 ABSORB = Inr NegInf"
  "nd_getitem (scenario_heap ! rewards scenario_grid) 1 DOWN = Inr (Fin 10)"
  by code_simp+

text \<open>
  C1, as the claim states it, fails where the goal state is a negative index: on the
  1 x 1 grid built with goal state \<open>-1\<close> the construction succeeds and the ABSORB entry
  of state 0 is 0, although state 0 is not the constructor's goal state.
\<close>

theorem init_reward_table_counterexample:
  "\<not> isl (fst (GridWorldMDP_init [] 1 1 [] (Some (- 1)) (Fin 0)))
   \<and> nd_getitem (snd (GridWorldMDP_init [] 1 1 [] (Some (- 1)) (Fin 0))
        ! rewards (projr (fst (GridWorldMDP_init [] 1 1 [] (Some (- 1)) (Fin 0))))) 0 ABSORB
      = Inr (Fin 0)
   \<and> spec_reward 1 1 [] (Some (- 1)) (Fin 0) 0 ABSORB = NegInf
   \<and> nd_getitem (snd (GridWorldMDP_init [] 1 1 [] (Some (- 1)) (Fin 0))
        ! rewards (projr (fst (GridWorldMDP_init [] 1 1 [] (Some (- 1)) (Fin 0))))) 0 ABSORB
      \<noteq> Inr (spec_reward 1 1 [] (Some (- 1)) (Fin 0) 0 ABSORB)"
  by code_simp

text \<open>
  C1, amended. For every grid world that the constructor returns, every state \<open>s\<close> in
  \<open>[0, rows*cols)\<close> and every action \<open>a\<close> in \<open>[0, 9)\<close>: the entry \<open>(s, a)\<close> of the reward
  table is, for ABSORB, 0 if \<open>s\<close> is the state that the goal index denotes (the goal
  state itself if it is not negative, \<open>rows*cols\<close> plus the goal state if it is) and
  negative infinity otherwise; for any other action, negative infinity if the move is
  illegal, else the override of the destination coordinate if it has one, else the
  default reward. Where the goal state is none or not negative this is the table of the
  claim.
\<close>

theorem init_reward_table:
  assumes "GridWorldMDP_init h nr nc rd goal dflt = (Inr m, h')"
    and "0 \<le> s" and "s < nr * nc" and "0 \<le> a" and "a < 9"
  shows "nd_getitem (h' ! rewards m) s a = Inr (resolved_reward nr nc rd goal dflt s a)
       \<and> ((goal = None \<or> (\<exists>g. goal = Some g \<and> 0 \<le> g)) \<longrightarrow>
            nd_getitem (h' ! rewards m) s a = Inr (spec_reward nr nc rd goal dflt s a))"
proof -
  have r: "nd_getitem (h' ! rewards m) s a = Inr (resolved_reward nr nc rd goal dflt s a)"
    using constructed_table_entry [OF assms] by simp
  have "(goal = None \<or> (\<exists>g. goal = Some g \<and> 0 \<le> g)) \<longrightarrow>
      resolved_reward nr nc rd goal dflt s a = spec_reward nr nc rd goal dflt s a"
    by (auto simp: resolved_reward_def spec_reward_def resolved_goal_def)
  then show ?thesis using r by simp
qed

theorem init_reward_table_witness:
  "GridWorldMDP_init [] 2 2 [((1, 1), Fin 10)] (Some 3) (Fin 0) = (Inr scenario_grid, scenario_heap)
   \<and> nd_getitem (scenario_heap ! rewards scenario_grid) 1 DOWN = Inr (Fin 10)
   \<and> nd_getitem (scenario_heap ! rewards scenario_grid) 3 ABSORB = Inr (Fin 0)"
proof -
  have v: "resolved_reward 2 2 [((1, 1), Fin 10)] (Some 3) (Fin 0) 1 DOWN = Fin 10"
    "resolved_reward 2 2 [((1, 1), Fin 10)] (Some 3) (Fin 0) 3 ABSORB = Fin 0"
    by code_simp+
  have d: "(0::int) \<le> DOWN" "DOWN < 9" "(0::int) \<le> ABSORB" "ABSORB < 9"
    by (simp_all add: Actions_defs)
  have "nd_getitem (scenario_heap ! rewards scenario_grid) 1 DOWN = Inr (Fin 10)"
    using init_reward_table [OF scenario_init, of 1 DOWN] d v by simp
  moreover have "nd_getitem (scenario_heap ! rewards scenario_grid) 3 ABSORB = Inr (Fin 0)"
    using init_reward_table [OF scenario_init, of 3 ABSORB] d v by simp
  ultimately show ?thesis using scenario_init by simp
qed

text \<open>
  C8, as the claim states it, fails where the goal state is a negative index: on the
  1 x 1 grid built with goal state \<open>-1\<close>, ABSORB at state 0 is a no-op that raises no
  error, and state 0 is not the constructor's goal state, yet its reward-table entry is
  0 and not negative infinity.
\<close>

theorem transition_total_counterexample:
  "GridWorldMDP_transition 1 1 0 ABSORB = Inr (0, False)
   \<and> Some (- 1) \<noteq> Some (0 :: int)
   \<and> \<not> isl (fst (GridWorldMDP_init [] 1 1 [] (Some (- 1)) (Fin 0)))
   \<and> nd_getitem (snd (GridWorldMDP_init [] 1 1 [] (Some (- 1)) (Fin 0))
        ! rewards (projr (fst (GridWorldMDP_init [] 1 1 [] (Some (- 1)) (Fin 0))))) 0 ABSORB
      \<noteq> Inr NegInf"
  by code_simp

text \<open>
  C8, amended. For every state \<open>s\<close> in \<open>[0, rows*cols)\<close> and every action \<open>a\<close> in
  \<open>[0, 9)\<close> of a grid with \<open>rows > 0\<close> and \<open>cols > 0\<close>, the transition raises no error,
  with or without the illegality flag, and returns a state of the grid. The flag is set
  exactly when the coordinate of \<open>s\<close> shifted by the delta of \<open>a\<close> lies outside the
  grid; then the state returned is \<open>s\<close> itself, and otherwise it is the state that
  encodes the shifted coordinate. ABSORB never leaves the grid and returns \<open>s\<close>. In every
  grid world that the constructor returns for these dimensions, the reward-table entry
  of an attempt to leave the grid is negative infinity, and so is the entry of ABSORB at
  every state other than the one that the goal state denotes as a numpy index (the goal
  state itself if it is not negative, \<open>rows*cols\<close> plus the goal state if it is); where
  the goal state is none or not negative, that is every state other than the goal state.
\<close>

theorem transition_total:
  assumes "0 < nr" and "0 < nc" and "0 \<le> s" and "s < nr * nc" and "0 \<le> a" and "a < 9"
  shows "\<exists>s'.
           GridWorldMDP_transition nr nc s a = Inr (s', \<not> in_grid nr nc (spec_dest nc s a))
           \<and> GridWorldMDP_transition_fn nr nc s a = Inr s'
           \<and> 0 \<le> s' \<and> s' < nr * nc
           \<and> (\<not> in_grid nr nc (spec_dest nc s a) \<longrightarrow> s' = s)
           \<and> (in_grid nr nc (spec_dest nc s a) \<longrightarrow>
                coor_to_state nr nc (fst (spec_dest nc s a)) (snd (spec_dest nc s a)) = Inr s')
           \<and> (a = ABSORB \<longrightarrow> s' = s \<and> in_grid nr nc (spec_dest nc s a))
           \<and> (\<forall>h rd goal dflt m h'.
                 GridWorldMDP_init h nr nc rd goal dflt = (Inr m, h') \<longrightarrow>
                 (\<not> in_grid nr nc (spec_dest nc s a) \<longrightarrow>
                    nd_getitem (h' ! rewards m) s a = Inr NegInf)
                 \<and> (a = ABSORB \<and> resolved_goal (nr * nc) goal \<noteq> Some s \<longrightarrow>
                    nd_getitem (h' ! rewards m) s a = Inr NegInf)
                 \<and> (a = ABSORB \<and> (goal = None \<or> (\<exists>g. goal = Some g \<and> 0 \<le> g))
                      \<and> goal \<noteq> Some s \<longrightarrow>
                    nd_getitem (h' ! rewards m) s a = Inr NegInf))"
proof -
  let ?d = "spec_dest nc s a"
  let ?s' = "if in_grid nr nc ?d then fst ?d * nc + snd ?d else s"
  have t: "GridWorldMDP_transition nr nc s a = Inr (?s', \<not> in_grid nr nc ?d)"
    using transition_eq [OF assms] by simp
  have f: "GridWorldMDP_transition_fn nr nc s a = Inr ?s'"
    using t by (simp add: GridWorldMDP_transition_fn_def)
  have here: "in_grid nr nc (s div nc, s mod nc)"
    using div_lt_rows [OF assms(3,4,2)] by (simp add: in_grid_def)
  have ab: "a = ABSORB \<longrightarrow> ?d = (s div nc, s mod nc)"
    by (simp add: spec_dest_def spec_delta_def Actions_defs)
  have b: "0 \<le> ?s' \<and> ?s' < nr * nc"
  proof (cases "in_grid nr nc ?d")
    case True
    then show ?thesis
      using encode_bounds [of "fst ?d" nr "snd ?d" nc] by (simp add: in_grid_def)
  next
    case False
    then show ?thesis using assms by simp
  qed
  have leave: "\<not> in_grid nr nc ?d \<longrightarrow> ?s' = s" by simp
  have stay: "in_grid nr nc ?d \<longrightarrow> coor_to_state nr nc (fst ?d) (snd ?d) = Inr ?s'"
    by (simp add: coor_to_state_def in_grid_def)
  have absorb: "a = ABSORB \<longrightarrow> ?s' = s \<and> in_grid nr nc ?d"
    using ab here by simp
  have tab: "\<forall>h rd goal dflt m h'.
                 GridWorldMDP_init h nr nc rd goal dflt = (Inr m, h') \<longrightarrow>
                 (\<not> in_grid nr nc ?d \<longrightarrow> nd_getitem (h' ! rewards m) s a = Inr NegInf)
                 \<and> (a = ABSORB \<and> resolved_goal (nr * nc) goal \<noteq> Some s \<longrightarrow>
                    nd_getitem (h' ! rewards m) s a = Inr NegInf)
                 \<and> (a = ABSORB \<and> (goal = None \<or> (\<exists>g. goal = Some g \<and> 0 \<le> g))
                      \<and> goal \<noteq> Some s \<longrightarrow>
                    nd_getitem (h' ! rewards m) s a = Inr NegInf)"
  proof (intro allI impI)
    fix h rd goal dflt m h'
    assume init: "GridWorldMDP_init h nr nc rd goal dflt = (Inr m, h')"
    have e: "nd_getitem (h' ! rewards m) s a = Inr (resolved_reward nr nc rd goal dflt s a)"
      using constructed_table_entry [OF init assms(3-6)] by simp
    have c1: "\<not> in_grid nr nc ?d \<longrightarrow> resolved_reward nr nc rd goal dflt s a = NegInf"
      using absorb by (auto simp: resolved_reward_def spec_entry_def)
    have c2: "a = ABSORB \<and> resolved_goal (nr * nc) goal \<noteq> Some s \<longrightarrow>
        resolved_reward nr nc rd goal dflt s a = NegInf"
      by (simp add: resolved_reward_def)
    have c3: "a = ABSORB \<and> (goal = None \<or> (\<exists>g. goal = Some g \<and> 0 \<le> g))
          \<and> goal \<noteq> Some s \<longrightarrow> resolved_reward nr nc rd goal dflt s a = NegInf"
      by (cases goal) (auto simp: resolved_reward_def resolved_goal_def)
    show "(\<not> in_grid nr nc ?d \<longrightarrow> nd_getitem (h' ! rewards m) s a = Inr NegInf)
          \<and> (a = ABSORB \<and> resolved_goal (nr * nc) goal \<noteq> Some s \<longrightarrow>
               nd_getitem (h' ! rewards m) s a = Inr NegInf)
          \<and> (a = ABSORB \<and> (goal = None \<or> (\<exists>g. goal = Some g \<and> 0 \<le> g))
                \<and> goal \<noteq> Some s \<longrightarrow>
               nd_getitem (h' ! rewards m) s a = Inr NegInf)"
      unfolding e using c1 c2 c3 by simp
  qed
  show ?thesis
    using t f b leave stay absorb tab by (intro exI [of _ ?s']) blast
qed

theorem transition_total_witness:
  "\<not> in_grid 2 2 (spec_dest 2 0 UP)
   \<and> GridWorldMDP_transition 2 2 0 UP = Inr (0, True)
   \<and> GridWorldMDP_transition_fn 2 2 0 UP = Inr 0
   \<and> nd_getitem (scenario_heap ! rewards scenario_grid) 0 UP = Inr NegInf
   \<and> GridWorldMDP_transition 2 2 0 ABSORB = Inr (0, False)
   \<and> nd_getitem (scenario_heap ! rewards scenario_grid) 0 ABSORB = Inr NegInf"
proof -
  have u: "(0::int) \<le> UP" "UP < 9" "(0::int) \<le> ABSORB" "ABSORB < 9"
    by (simp_all add: Actions_defs)
  have out: "\<not> in_grid 2 2 (spec_dest 2 0 UP)"
    by (simp add: in_grid_def spec_dest_def spec_delta_def Actions_defs)
  have inn: "in_grid 2 2 (spec_dest 2 0 ABSORB)"
    by (simp add: in_grid_def spec_dest_def spec_delta_def Actions_defs)
  have g: "resolved_goal (2 * 2) (Some 3) \<noteq> Some 0" by (simp add: resolved_goal_def)
  from transition_total [of 2 2 0 UP] u out
  obtain s1 where up: "GridWorldMDP_transition 2 2 0 UP = Inr (s1, True)"
      "GridWorldMDP_transition_fn 2 2 0 UP = Inr s1" "s1 = 0"
    and upt: "\<forall>h rd goal dflt m h'.
          GridWorldMDP_init h 2 2 rd goal dflt = (Inr m, h') \<longrightarrow>
          nd_getitem (h' ! rewards m) 0 UP = Inr NegInf"
    by auto
  from transition_total [of 2 2 0 ABSORB] u inn
  obtain s2 where ab: "GridWorldMDP_transition 2 2 0 ABSORB = Inr (s2, False)" "s2 = 0"
    and abt: "\<forall>h rd goal dflt m h'.
          GridWorldMDP_init h 2 2 rd goal dflt = (Inr m, h') \<longrightarrow>
          resolved_goal (2 * 2) goal \<noteq> Some 0 \<longrightarrow>
          nd_getitem (h' ! rewards m) 0 ABSORB = Inr NegInf"
    by auto
  have "nd_getitem (scenario_heap ! rewards scenario_grid) 0 UP = Inr NegInf"
    using upt scenario_init by blast
  moreover have "nd_getitem (scenario_heap ! rewards scenario_grid) 0 ABSORB = Inr NegInf"
    using abt scenario_init g by blast
  ultimately show ?thesis using out up ab by simp
qed

section \<open>Copies\<close>

lemma set_all_goals_store:
  assumes ok: "gridworld_ok h m"
  shows "fst (set_all_goals h m) = Inr ()
         \<and> length (snd (set_all_goals h m)) = length h
         \<and> (\<forall>p. p \<noteq> rewards m \<longrightarrow> snd (set_all_goals h m) ! p = h ! p)
         \<and> gridworld_ok (snd (set_all_goals h m)) m"
proof -
  let ?n = "nat (rows m * cols m)"
  let ?t = "h ! rewards m"
  let ?t1 = "?t\<lparr>cells := map (\<lambda>row. row[8 := Fin 0]) (cells ?t)\<rparr>"
  have tok: "table_ok ?n 9 ?t" using ok by (simp add: gridworld_ok_def)
  have ok1: "table_ok ?n 9 ?t1" using tok by (rule table_ok_fill_column)
  have "set_all_goals h m = (Inr (), h[rewards m := ?t1])"
    using nd_fill_column_absorb [OF tok, of "Fin 0"] by (simp add: set_all_goals_def)
  then show ?thesis using ok ok1 by (simp add: gridworld_ok_def)
qed

lemma copy_eq:
  assumes ok: "gridworld_ok h m"
  shows "\<exists>t sr. table_ok (nat (rows m * cols m)) 9 t
           \<and> copy h m =
               (Inr \<lparr>S = PyInt (rows m * cols m), A = PyInt 9, rewards = Suc (length h),
                     transition = PyFun (GridWorldMDP_transition_fn (rows m) (cols m)),
                     rows = rows m, cols = cols m, state_rewards = sr\<rparr>,
                h @ [t, h ! rewards m])"
proof -
  let ?n = "nat (rows m * cols m)"
  have nr: "0 < rows m" and nc: "0 < cols m" and p: "rewards m < length h"
    using ok by (simp_all add: gridworld_ok_def)
  let ?self = "\<lparr>S = PyInt (rows m * cols m), A = PyInt 9, rewards = length h,
                 transition = PyFun (GridWorldMDP_transition_fn (rows m) (cols m)),
                 rows = rows m, cols = cols m, state_rewards = replicate ?n (Fin 0)\<rparr>"
  from init_unfold [OF nr nc, of "[]" "Fin 0" h None]
  obtain t where tok: "table_ok ?n 9 t"
    and eq: "GridWorldMDP_init h (rows m) (cols m) [] None (Fin 0) =
               (case set_goal (h @ [t]) ?self None of
                  (Inl e, h2) \<Rightarrow> (Inl e, h2)
                | (Inr u, h2) \<Rightarrow> (Inr ?self, h2))"
    by (auto simp: fill_state_rewards_def)
  have oks: "gridworld_ok (h @ [t]) ?self"
    using nr nc tok by (simp add: gridworld_ok_def)
  let ?t1 = "t\<lparr>cells := map (\<lambda>row. row[8 := NegInf]) (cells t)\<rparr>"
  have sg: "set_goal (h @ [t]) ?self None = (Inr (), h @ [?t1])"
    using set_goal_None [OF oks] by simp
  have ok1: "table_ok ?n 9 ?t1" using tok by (rule table_ok_fill_column)
  have init: "GridWorldMDP_init h (rows m) (cols m) [] None (Fin 0) = (Inr ?self, h @ [?t1])"
    using eq sg by simp
  have "(h @ [?t1]) ! rewards m = h ! rewards m" using p by (simp add: nth_append)
  then have "copy h m = (Inr (?self\<lparr>rewards := Suc (length h)\<rparr>), h @ [?t1, h ! rewards m])"
    using init by (simp add: copy_def alloc_def)
  then show ?thesis using ok1 by auto
qed

text \<open>
  C9. For every grid world \<open>m\<close>, \<open>copy\<close> succeeds and returns a grid world with the rows
  and columns of \<open>m\<close> whose reward table is a different array of the store, equal to the
  table of \<open>m\<close> at the time of the copy, entry for entry; the table of \<open>m\<close> is as it
  was. Afterwards a write to the table of one of the two, by \<open>set_goal\<close>, by
  \<open>set_all_goals\<close> or by storing any array in its place, leaves the table of the other
  unchanged.
\<close>

theorem copy_independent:
  assumes "gridworld_ok h m"
  shows "\<exists>cp h'. copy h m = (Inr cp, h')
           \<and> rows cp = rows m \<and> cols cp = cols m
           \<and> gridworld_ok h' cp \<and> gridworld_ok h' m
           \<and> rewards cp \<noteq> rewards m
           \<and> h' ! rewards cp = h ! rewards m
           \<and> h' ! rewards m = h ! rewards m
           \<and> (\<forall>s a. nd_getitem (h' ! rewards cp) s a = nd_getitem (h ! rewards m) s a)
           \<and> (\<forall>goal. snd (set_goal h' cp goal) ! rewards m = h' ! rewards m
                    \<and> snd (set_goal h' m goal) ! rewards cp = h' ! rewards cp)
           \<and> snd (set_all_goals h' cp) ! rewards m = h' ! rewards m
           \<and> snd (set_all_goals h' m) ! rewards cp = h' ! rewards cp
           \<and> (\<forall>t. h'[rewards cp := t] ! rewards m = h' ! rewards m
                 \<and> h'[rewards m := t] ! rewards cp = h' ! rewards cp)"
proof -
  let ?n = "nat (rows m * cols m)"
  have nr: "0 < rows m" and nc: "0 < cols m" and p: "rewards m < length h"
    and tok: "table_ok ?n 9 (h ! rewards m)"
    using assms by (simp_all add: gridworld_ok_def)
  from copy_eq [OF assms]
  obtain t sr where
    c: "copy h m =
               (Inr \<lparr>S = PyInt (rows m * cols m), A = PyInt 9, rewards = Suc (length h),
                     transition = PyFun (GridWorldMDP_transition_fn (rows m) (cols m)),
                     rows = rows m, cols = cols m, state_rewards = sr\<rparr>,
                h @ [t, h ! rewards m])"
    by blast
  let ?cp = "\<lparr>S = PyInt (rows m * cols m), A = PyInt 9, rewards = Suc (length h),
               transition = PyFun (GridWorldMDP_transition_fn (rows m) (cols m)),
               rows = rows m, cols = cols m, state_rewards = sr\<rparr>"
  let ?h' = "h @ [t, h ! rewards m]"
  have at_cp: "?h' ! rewards ?cp = h ! rewards m"
    by (simp add: nth_append)
  have at_m: "?h' ! rewards m = h ! rewards m"
    using p by (simp add: nth_append)
  have ne: "rewards ?cp \<noteq> rewards m" using p by simp
  have okcp: "gridworld_ok ?h' ?cp"
    using nr nc tok at_cp by (simp add: gridworld_ok_def)
  have okm: "gridworld_ok ?h' m"
    using nr nc p tok at_m by (simp add: gridworld_ok_def)
  have g: "\<forall>goal. snd (set_goal ?h' ?cp goal) ! rewards m = ?h' ! rewards m
                    \<and> snd (set_goal ?h' m goal) ! rewards ?cp = ?h' ! rewards ?cp"
    using set_goal_store [OF okcp] set_goal_store [OF okm] ne by metis
  have ag: "snd (set_all_goals ?h' ?cp) ! rewards m = ?h' ! rewards m"
    "snd (set_all_goals ?h' m) ! rewards ?cp = ?h' ! rewards ?cp"
    using set_all_goals_store [OF okcp] set_all_goals_store [OF okm] ne by metis+
  have w: "\<forall>t'. ?h'[rewards ?cp := t'] ! rewards m = ?h' ! rewards m
                 \<and> ?h'[rewards m := t'] ! rewards ?cp = ?h' ! rewards ?cp"
    using ne by simp
  have rc: "rows ?cp = rows m \<and> cols ?cp = cols m" by simp
  have ge: "\<forall>s a. nd_getitem (?h' ! rewards ?cp) s a = nd_getitem (h ! rewards m) s a"
    using at_cp by simp
  show ?thesis
    using c rc okcp okm ne at_cp at_m ge g ag w by blast
qed

theorem copy_independent_witness:
  "gridworld_ok scenario_heap scenario_grid
   \<and> \<not> isl (fst (copy scenario_heap scenario_grid))
   \<and> rewards (projr (fst (copy scenario_heap scenario_grid))) \<noteq> rewards scenario_grid
   \<and> snd (copy scenario_heap scenario_grid)
        ! rewards (projr (fst (copy scenario_heap scenario_grid)))
      = scenario_heap ! rewards scenario_grid
   \<and> snd (set_goal (snd (copy scenario_heap scenario_grid))
             (projr (fst (copy scenario_heap scenario_grid))) (Some 0))
        ! rewards scenario_grid
      = scenario_heap ! rewards scenario_grid"
proof -
  from copy_independent [OF scenario_ok]
  obtain cp h' where c: "copy scenario_heap scenario_grid = (Inr cp, h')"
    and ne: "rewards cp \<noteq> rewards scenario_grid"
    and e1: "h' ! rewards cp = scenario_heap ! rewards scenario_grid"
    and e2: "h' ! rewards scenario_grid = scenario_heap ! rewards scenario_grid"
    and g: "\<forall>goal. snd (set_goal h' cp goal) ! rewards scenario_grid = h' ! rewards scenario_grid
                    \<and> snd (set_goal h' scenario_grid goal) ! rewards cp = h' ! rewards cp"
    by blast
  have "snd (set_goal h' cp (Some 0)) ! rewards scenario_grid
      = scenario_heap ! rewards scenario_grid"
    using g e2 by simp
  then show ?thesis using scenario_ok c ne e1 by simp
qed

section \<open>The constructor of MDP\<close>

text \<open>
  C5, as the claim states it, fails for the state count 0: with a reward table of shape
  \<open>(0, 9)\<close> the four assertions hold and the object is built.
\<close>

theorem MDP_init_zero_states_counterexample:
  "MDP_init [np_zeros 0 9] (PyInt 0) (PyInt 9) 0 (PyFun (GridWorldMDP_transition_fn 1 1))
     = Inr \<lparr>S = PyInt 0, A = PyInt 9, rewards = 0,
            transition = PyFun (GridWorldMDP_transition_fn 1 1)\<rparr>"
  by (simp add: MDP_init_def isinstance_int_def py_eq_def callable_def np_zeros_def)

text \<open>
  C5, amended. \<open>MDP.__init__\<close> fails with an assertion error whenever the state count or
  the action count is not an instance of \<open>int\<close>, whenever the shape of the reward table
  differs from (state count, action count), or whenever the transition is not callable;
  in particular it fails for every negative state count and every negative action count,
  since no shape has a negative dimension. In every other case, the state count 0
  included, the object is built with the four fields as given.
\<close>

theorem MDP_init_checks:
  "(\<not> isinstance_int n \<or> \<not> isinstance_int k
      \<or> \<not> (py_eq (shape0 (h ! rew)) n \<and> py_eq (shape1 (h ! rew)) k) \<or> \<not> callable tr
     \<longrightarrow> MDP_init h n k rew tr = Inl AssertionError)
   \<and> (\<forall>i. i < 0 \<longrightarrow> MDP_init h (PyInt i) k rew tr = Inl AssertionError
                    \<and> MDP_init h n (PyInt i) rew tr = Inl AssertionError)
   \<and> (\<forall>x. MDP_init h (PyFloat x) k rew tr = Inl AssertionError
          \<and> MDP_init h n (PyFloat x) rew tr = Inl AssertionError)
   \<and> MDP_init h PyNone k rew tr = Inl AssertionError
   \<and> MDP_init h n PyNone rew tr = Inl AssertionError
   \<and> (isinstance_int n \<and> isinstance_int k
      \<and> py_eq (shape0 (h ! rew)) n \<and> py_eq (shape1 (h ! rew)) k \<and> callable tr
     \<longrightarrow> MDP_init h n k rew tr = Inr \<lparr>S = n, A = k, rewards = rew, transition = tr\<rparr>)"
  by (auto simp: MDP_init_def isinstance_int_def py_eq_def)

theorem MDP_init_checks_witness:
  "MDP_init [np_zeros 4 9] (PyInt (- 1)) (PyInt 9) 0 (PyFun (GridWorldMDP_transition_fn 2 2))
     = Inl AssertionError
   \<and> MDP_init [np_zeros 4 9] (PyInt 4) (PyInt 9) 0 PyNone = Inl AssertionError
   \<and> MDP_init [np_zeros 4 9] (PyInt 3) (PyInt 9) 0 (PyFun (GridWorldMDP_transition_fn 2 2))
     = Inl AssertionError
   \<and> MDP_init [np_zeros 4 9] (PyInt 4) (PyInt 9) 0 (PyFun (GridWorldMDP_transition_fn 2 2))
     = Inr \<lparr>S = PyInt 4, A = PyInt 9, rewards = 0,
            transition = PyFun (GridWorldMDP_transition_fn 2 2)\<rparr>"
proof -
  let ?f = "PyFun (GridWorldMDP_transition_fn 2 2)"
  have a: "MDP_init [np_zeros 4 9] (PyInt (- 1)) (PyInt 9) 0 ?f = Inl AssertionError"
    using MDP_init_checks [of "PyInt (- 1)" "PyInt 9" "[np_zeros 4 9]" 0 ?f] by simp
  have b: "MDP_init [np_zeros 4 9] (PyInt 4) (PyInt 9) 0 PyNone = Inl AssertionError"
    using MDP_init_checks [of "PyInt 4" "PyInt 9" "[np_zeros 4 9]" 0 PyNone]
    by (simp add: callable_def)
  have c: "MDP_init [np_zeros 4 9] (PyInt 3) (PyInt 9) 0 ?f = Inl AssertionError"
    using MDP_init_checks [of "PyInt 3" "PyInt 9" "[np_zeros 4 9]" 0 ?f]
    by (simp add: py_eq_def np_zeros_def)
  have d: "MDP_init [np_zeros 4 9] (PyInt 4) (PyInt 9) 0 ?f
     = Inr \<lparr>S = PyInt 4, A = PyInt 9, rewards = 0, transition = ?f\<rparr>"
    using MDP_init_checks [of "PyInt 4" "PyInt 9" "[np_zeros 4 9]" 0 ?f]
    by (simp add: py_eq_def np_zeros_def isinstance_int_def callable_def)
  show ?thesis using a b c d by simp
qed

end
